theory Spec2Isabelle
  imports Main "HOL-Library.Word" "HOL-Library.Monad_Syntax"
begin

section \<open>Value model and diagnostic slot (common.h, common.c)\<close>

text \<open>
  Conventions of the embedding.
  \<^item> A \<open>string\<close> stands for the content of a NUL-terminated C string (the bytes before
    the terminator), so \<open>strdup\<close> is the identity and \<open>strcmp(a, b) == 0\<close> is \<open>a = b\<close>.
    A \<open>char*\<close> that may be \<open>NULL\<close> is a \<open>string option\<close>.
  \<^item> The C \<open>int\<close> counters (line, column, lengths) are \<open>int\<close>; sources of 2 GiB and
    more, where they would overflow, are outside the model.
  \<^item> \<open>malloc\<close> and \<open>strdup\<close> are taken to succeed. Text written to stdout and stderr
    (\<open>log_message\<close>, \<open>print_error\<close>, the echo of the interactive mode) is not part of
    the state and is left out.
  \<^item> \<open>kasd_state.error\<close>, the one global the stages share, is passed in and returned.
\<close>

datatype ErrorType =
  ERROR_NONE | ERROR_SYNTAX | ERROR_TYPE | ERROR_NAME | ERROR_RUNTIME | ERROR_INTERNAL

record Error =
  err_type :: ErrorType
  err_line :: int
  err_column :: int
  err_message :: "string option"
  err_source_line :: "string option"
  err_source_pos :: int
  err_source_len :: int
  has_error :: bool

datatype ValueType = VALUE_NULL | VALUE_INT | VALUE_FLOAT | VALUE_BOOL | VALUE_STRING

text \<open>
  A C \<open>double\<close> is kept symbolic: \<open>strtod s\<close> is the double that the C library's
  \<open>strtod\<close> returns when it is called on the text \<open>s\<close>.
\<close>

datatype double = strtod string

text \<open>The tagged union \<open>Value\<close>: the constructor is the tag, its argument the payload.\<close>

datatype Value =
  NullValue
| IntValue "64 word"
| FloatValue double
| BoolValue bool
| StringValue string

fun value_type :: "Value \<Rightarrow> ValueType" where
  "value_type NullValue = VALUE_NULL"
| "value_type (IntValue i) = VALUE_INT"
| "value_type (FloatValue d) = VALUE_FLOAT"
| "value_type (BoolValue b) = VALUE_BOOL"
| "value_type (StringValue s) = VALUE_STRING"

definition create_null_value :: Value where
  "create_null_value = NullValue"

definition create_int_value :: "64 word \<Rightarrow> Value" where
  "create_int_value val = IntValue val"

definition create_float_value :: "double \<Rightarrow> Value" where
  "create_float_value val = FloatValue val"

definition create_bool_value :: "bool \<Rightarrow> Value" where
  "create_bool_value val = BoolValue val"

definition create_string_value :: "string \<Rightarrow> Value" where
  "create_string_value val = StringValue val"

fun value_type_to_string :: "ValueType \<Rightarrow> string" where
  "value_type_to_string VALUE_NULL = ''null''"
| "value_type_to_string VALUE_INT = ''int''"
| "value_type_to_string VALUE_FLOAT = ''float''"
| "value_type_to_string VALUE_BOOL = ''bool''"
| "value_type_to_string VALUE_STRING = ''string''"

definition set_error ::
  "ErrorType \<Rightarrow> int \<Rightarrow> int \<Rightarrow> string \<Rightarrow> string option \<Rightarrow> int \<Rightarrow> int \<Rightarrow> Error \<Rightarrow> Error" where
  "set_error ty ln col message source_line source_pos source_len e =
     (if has_error e then e
      else e\<lparr>err_type := ty, err_line := ln, err_column := col,
             err_message := Some message, err_source_line := source_line,
             err_source_pos := source_pos, err_source_len := source_len,
             has_error := True\<rparr>)"

definition clear_error :: "Error \<Rightarrow> Error" where
  "clear_error e =
     e\<lparr>err_type := ERROR_NONE, err_line := 0, err_column := 0,
       err_message := None, err_source_line := None,
       err_source_pos := - 1, err_source_len := 0, has_error := False\<rparr>"

text \<open>\<open>print_error\<close> only reads the slot and writes to stderr: the slot is unchanged.\<close>

definition print_error :: "Error \<Rightarrow> Error" where
  "print_error e = e"

text \<open>
  The three operations on the slot, as a caller can issue them.
\<close>

datatype SlotOp =
  SetError ErrorType int int string "string option" int int
| PrintError
| ClearError

fun slot_step :: "SlotOp \<Rightarrow> Error \<Rightarrow> Error" where
  "slot_step (SetError ty ln col message source_line source_pos source_len) e =
     set_error ty ln col message source_line source_pos source_len e"
| "slot_step PrintError e = print_error e"
| "slot_step ClearError e = clear_error e"

text \<open>\<open>init_kasd_state\<close>: the slot at process start (the log level is not modelled).\<close>

definition init_kasd_state :: "Error \<Rightarrow> Error" where
  "init_kasd_state e = clear_error e"

section \<open>Lexer (lexer.h, lexer.c)\<close>

datatype TokenType =
  TOKEN_EOF | TOKEN_IDENTIFIER | TOKEN_INT | TOKEN_FLOAT | TOKEN_STRING | TOKEN_LET
| TOKEN_COLON | TOKEN_EQUAL | TOKEN_SEMICOLON | TOKEN_TRUE | TOKEN_FALSE | TOKEN_NULL
| TOKEN_TYPE_INT | TOKEN_TYPE_FLOAT | TOKEN_TYPE_BOOL | TOKEN_TYPE_STRING | TOKEN_TYPE_NULL

text \<open>
  \<open>Token.start\<close> points into the source (at an offset) or, for an error token, at the
  message. The union \<open>Token.value\<close> is written for Int, Float and String tokens only.
\<close>

datatype CharPtr = InSource nat | InMessage string

datatype TokenValue = NoValue | as_int "64 word" | as_float double | as_string string

record Token =
  tok_type :: TokenType
  tok_start :: CharPtr
  tok_length :: int
  tok_line :: int
  tok_column :: int
  tok_value :: TokenValue

text \<open>
  The lexer: \<open>lx_current\<close> and \<open>lx_start\<close> are the offsets of the two pointers from
  \<open>lx_source\<close>. The buffer holds the source followed by its NUL terminator, at offset
  \<open>length (lx_source l)\<close>; any offset beyond that is outside the buffer. The field
  \<open>previous\<close> of the C struct is never written or read and is left out.
\<close>

record Lexer =
  lx_source :: string
  lx_current :: nat
  lx_start :: nat
  lx_line :: int
  lx_column :: int
  lx_had_error :: bool

datatype CharClass =
  CHAR_WHITESPACE | CHAR_ALPHA | CHAR_DIGIT | CHAR_SPECIAL | CHAR_QUOTE | CHAR_NEWLINE
| CHAR_EOF

text \<open>
  \<open>isspace\<close>, \<open>isalpha\<close> and \<open>isdigit\<close> of the C library, in the "C" locale (the program
  never calls \<open>setlocale\<close>).
\<close>

definition isspace :: "char \<Rightarrow> bool" where
  "isspace c = (let n = (of_char c :: nat) in n = 32 \<or> (9 \<le> n \<and> n \<le> 13))"

definition isalpha :: "char \<Rightarrow> bool" where
  "isalpha c = (let n = (of_char c :: nat) in (65 \<le> n \<and> n \<le> 90) \<or> (97 \<le> n \<and> n \<le> 122))"

definition isdigit :: "char \<Rightarrow> bool" where
  "isdigit c = (let n = (of_char c :: nat) in 48 \<le> n \<and> n \<le> 57)"

text \<open>
  The table \<open>char_classes\<close> as \<open>init_char_classes\<close> fills it: every entry starts as
  \<open>CHAR_SPECIAL\<close> and the six tests assign in order, so a later test that holds wins.
\<close>

definition char_classes :: "char \<Rightarrow> CharClass" where
  "char_classes c =
     (let k0 = CHAR_SPECIAL;
          k1 = (if isspace c \<and> c \<noteq> CHR 0x0A then CHAR_WHITESPACE else k0);
          k2 = (if isalpha c \<or> c = CHR ''_'' then CHAR_ALPHA else k1);
          k3 = (if isdigit c then CHAR_DIGIT else k2);
          k4 = (if c = CHR 0x22 then CHAR_QUOTE else k3);
          k5 = (if c = CHR 0x0A then CHAR_NEWLINE else k4)
      in if c = CHR 0x00 then CHAR_EOF else k5)"

definition init_lexer :: "string \<Rightarrow> Lexer" where
  "init_lexer src =
     \<lparr>lx_source = src, lx_current = 0, lx_start = 0, lx_line = 1, lx_column = 1,
      lx_had_error = False\<rparr>"

text \<open>
  \<open>*lexer->current\<close>: the byte at the current offset, the terminator at the end of the
  source. The read is inside the buffer only for \<open>lx_current l \<le> length (lx_source l)\<close>.
\<close>

definition peek :: "Lexer \<Rightarrow> char" where
  "peek l =
     (if lx_current l < length (lx_source l) then lx_source l ! lx_current l else CHR 0x00)"

definition is_at_end :: "Lexer \<Rightarrow> bool" where
  "is_at_end l = (peek l = CHR 0x00)"

definition advance :: "Lexer \<Rightarrow> char \<times> Lexer" where
  "advance l = (peek l, l\<lparr>lx_column := lx_column l + 1, lx_current := lx_current l + 1\<rparr>)"

definition peek_next :: "Lexer \<Rightarrow> char" where
  "peek_next l =
     (if is_at_end l then CHR 0x00
      else if lx_current l + 1 < length (lx_source l) then lx_source l ! (lx_current l + 1)
      else CHR 0x00)"

function skip_whitespace :: "Lexer \<Rightarrow> Lexer" where
  "skip_whitespace l =
     (case char_classes (peek l) of
        CHAR_WHITESPACE \<Rightarrow> skip_whitespace (snd (advance l))
      | CHAR_NEWLINE \<Rightarrow>
          skip_whitespace (snd (advance (l\<lparr>lx_line := lx_line l + 1, lx_column := 1\<rparr>)))
      | CHAR_ALPHA \<Rightarrow> l
      | CHAR_DIGIT \<Rightarrow> l
      | CHAR_SPECIAL \<Rightarrow> l
      | CHAR_QUOTE \<Rightarrow> l
      | CHAR_EOF \<Rightarrow> l)"
  by pat_completeness auto
termination
  by (relation "measure (\<lambda>l. length (lx_source l) - lx_current l)")
     (auto simp: advance_def peek_def char_classes_def isspace_def isalpha_def isdigit_def
           split: if_splits)

definition make_token :: "Lexer \<Rightarrow> TokenType \<Rightarrow> Token" where
  "make_token l ty =
     \<lparr>tok_type = ty, tok_start = InSource (lx_start l),
      tok_length = int (lx_current l) - int (lx_start l),
      tok_line = lx_line l,
      tok_column = lx_column l - (int (lx_current l) - int (lx_start l)),
      tok_value = NoValue\<rparr>"

definition error_token :: "Lexer \<Rightarrow> string \<Rightarrow> Error \<Rightarrow> Token \<times> Lexer \<times> Error" where
  "error_token l message e =
     (let l' = l\<lparr>lx_had_error := True\<rparr>;
          e' = set_error ERROR_SYNTAX (lx_line l') (lx_column l') message
                 (Some (lx_source l')) (int (lx_start l'))
                 (int (lx_current l') - int (lx_start l')) e
      in (\<lparr>tok_type = TOKEN_EOF, tok_start = InMessage message,
           tok_length = int (length message), tok_line = lx_line l',
           tok_column = lx_column l', tok_value = NoValue\<rparr>, l', e'))"

text \<open>The table \<open>keywords[]\<close>, in the order of the source.\<close>

definition keyword_table :: "(string \<times> TokenType \<times> nat) list" where
  "keyword_table =
     [(''let'', TOKEN_LET, 3), (''true'', TOKEN_TRUE, 4), (''false'', TOKEN_FALSE, 5),
      (''null'', TOKEN_NULL, 4), (''int'', TOKEN_TYPE_INT, 3),
      (''float'', TOKEN_TYPE_FLOAT, 5), (''bool'', TOKEN_TYPE_BOOL, 4),
      (''string'', TOKEN_TYPE_STRING, 6)]"

text \<open>
  The loop of \<open>check_keyword\<close> over the table; \<open>lexeme\<close> is the text between
  \<open>lexer->start\<close> and \<open>lexer->current\<close>, and \<open>memcmp\<close> compares its bytes with as many
  bytes of the keyword.
\<close>

fun check_keyword_for :: "(string \<times> TokenType \<times> nat) list \<Rightarrow> string \<Rightarrow> TokenType" where
  "check_keyword_for [] lexeme = TOKEN_IDENTIFIER"
| "check_keyword_for ((name, ty, len) # ks) lexeme =
     (if length lexeme = len \<and> lexeme = take (length lexeme) name then ty
      else check_keyword_for ks lexeme)"

definition lexeme_of :: "Lexer \<Rightarrow> string" where
  "lexeme_of l = take (lx_current l - lx_start l) (drop (lx_start l) (lx_source l))"

definition check_keyword :: "Lexer \<Rightarrow> TokenType" where
  "check_keyword l = check_keyword_for keyword_table (lexeme_of l)"

text \<open>The \<open>while\<close> loop of \<open>identifier\<close>, and \<open>identifier\<close> itself (as \<open>lex_identifier\<close>).\<close>

function identifier_while :: "Lexer \<Rightarrow> Lexer" where
  "identifier_while l =
     (if char_classes (peek l) = CHAR_ALPHA \<or> char_classes (peek l) = CHAR_DIGIT
      then identifier_while (snd (advance l)) else l)"
  by pat_completeness auto
termination
  by (relation "measure (\<lambda>l. length (lx_source l) - lx_current l)")
     (auto simp: advance_def peek_def char_classes_def isspace_def isalpha_def isdigit_def
           split: if_splits)

definition lex_identifier :: "Lexer \<Rightarrow> Token \<times> Lexer" where
  "lex_identifier l = (let l' = identifier_while l in (make_token l' (check_keyword l'), l'))"

text \<open>The \<open>while\<close> loop over digits that \<open>number\<close> runs twice.\<close>

function digits_while :: "Lexer \<Rightarrow> Lexer" where
  "digits_while l =
     (if char_classes (peek l) = CHAR_DIGIT then digits_while (snd (advance l)) else l)"
  by pat_completeness auto
termination
  by (relation "measure (\<lambda>l. length (lx_source l) - lx_current l)")
     (auto simp: advance_def peek_def char_classes_def isspace_def isalpha_def isdigit_def
           split: if_splits)

text \<open>
  \<open>strtoll(s, &end, 10)\<close> on a text that begins with a digit, the only way \<open>number\<close>
  calls it: the value of the leading run of digits, LLONG_MAX when it is larger.
\<close>

definition strtoll :: "string \<Rightarrow> 64 word" where
  "strtoll s =
     word_of_int
       (min (foldl (\<lambda>a c. 10 * a + (of_char c - 48)) (0::int) (takeWhile isdigit s))
            (2 ^ 63 - 1))"

text \<open>
  \<open>number\<close> hands \<open>lexer->start\<close> to \<open>strtoll\<close> and \<open>strtod\<close>: they read the source
  from the start of the lexeme on, not the lexeme alone.
\<close>

definition number :: "Lexer \<Rightarrow> Token \<times> Lexer" where
  "number l =
     (let l1 = digits_while l in
      if peek l1 = CHR ''.'' \<and> char_classes (peek_next l1) = CHAR_DIGIT then
        (let l2 = digits_while (snd (advance l1)) in
         ((make_token l2 TOKEN_FLOAT)
            \<lparr>tok_value := as_float (strtod (drop (lx_start l2) (lx_source l2)))\<rparr>, l2))
      else
        ((make_token l1 TOKEN_INT)
           \<lparr>tok_value := as_int (strtoll (drop (lx_start l1) (lx_source l1)))\<rparr>, l1))"

text \<open>The \<open>while\<close> loop of \<open>string\<close>: up to a closing quote or the end of the input.\<close>

function string_while :: "Lexer \<Rightarrow> Lexer" where
  "string_while l =
     (if peek l \<noteq> CHR 0x22 \<and> \<not> is_at_end l then
        string_while
          (snd (advance (if peek l = CHR 0x0A
                         then l\<lparr>lx_line := lx_line l + 1, lx_column := 1\<rparr> else l)))
      else l)"
  by pat_completeness auto
termination
  by (relation "measure (\<lambda>l. length (lx_source l) - lx_current l)")
     (auto simp: advance_def peek_def is_at_end_def split: if_splits)

text \<open>
  \<open>string\<close> is entered after \<open>scan_token\<close> has consumed the opening quote, and advances
  once more before it looks at anything. When the quote was the last byte of the source,
  that step moves the pointer past the terminator and the loop's first \<open>peek\<close> reads
  outside the buffer: the behaviour is undefined, and the model returns \<open>None\<close>.
\<close>

definition string :: "Lexer \<Rightarrow> Error \<Rightarrow> (Token \<times> Lexer \<times> Error) option" where
  "string l e =
     (let l1 = snd (advance l) in
      if length (lx_source l1) < lx_current l1 then None
      else
        (let start = lx_current l1;
             l2 = string_while l1
         in if is_at_end l2 then Some (error_token l2 ''Unterminated string.'' e)
            else
              (let len = lx_current l2 - start;
                   token = (make_token l2 TOKEN_STRING)
                     \<lparr>tok_value := as_string (take len (drop start (lx_source l2)))\<rparr>;
                   l3 = snd (advance l2)
               in Some (token, l3, e))))"

text \<open>
  \<open>scan_token\<close>. \<open>None\<close> is the out-of-buffer read of \<open>string\<close>; every other path
  returns a token, the lexer and the diagnostic slot.
\<close>

definition scan_token :: "Lexer \<Rightarrow> Error \<Rightarrow> (Token \<times> Lexer \<times> Error) option" where
  "scan_token l0 e =
     (let l1 = skip_whitespace l0;
          l2 = l1\<lparr>lx_start := lx_current l1\<rparr>
      in if is_at_end l2 then Some (make_token l2 TOKEN_EOF, l2, e)
         else
           (let (c, l3) = advance l2 in
            case char_classes c of
              CHAR_ALPHA \<Rightarrow> (let (t, l4) = lex_identifier l3 in Some (t, l4, e))
            | CHAR_DIGIT \<Rightarrow> (let (t, l4) = number l3 in Some (t, l4, e))
            | CHAR_QUOTE \<Rightarrow> string l3 e
            | _ \<Rightarrow>
                (if c = CHR '':'' then Some (make_token l3 TOKEN_COLON, l3, e)
                 else if c = CHR ''='' then Some (make_token l3 TOKEN_EQUAL, l3, e)
                 else if c = CHR '';'' then Some (make_token l3 TOKEN_SEMICOLON, l3, e)
                 else Some (error_token l3
                              (''Unexpected character: '' @ [CHR 0x27, c, CHR 0x27]) e))))"

section \<open>Parser (parser.h, parser.c)\<close>

text \<open>
  An AST node with its line and column: a declaration owns its name and its initializer,
  a literal its value. The parser never builds a declaration without an initializer, so
  the child is a node, not a nullable pointer; a nullable \<open>AstNode*\<close> (the result of
  \<open>parse\<close>) is an \<open>AstNode option\<close>.
\<close>

datatype AstNode =
  VariableDeclaration (node_line: int) (node_column: int) (var_name: string)
    (var_type: ValueType) (initializer: AstNode)
| Literal (node_line: int) (node_column: int) (literal: Value)

text \<open>
  The parser holds the lexer it drives (\<open>run_source\<close> reaches the lexer through the
  parser only).
\<close>

record Parser =
  ps_lexer :: Lexer
  ps_current :: Token
  ps_previous :: Token
  ps_had_error :: bool
  ps_panic_mode :: bool

text \<open>
  \<open>parser->current.start - parser->lexer->source\<close>. For an error token the two pointers
  belong to different objects and C gives the difference no value; the model takes 0.
  A diagnostic is pending whenever an error token is current, so \<open>set_error\<close> drops it.
\<close>

fun offset_in_source :: "CharPtr \<Rightarrow> int" where
  "offset_in_source (InSource n) = int n"
| "offset_in_source (InMessage m) = 0"

text \<open>The parser's \<open>advance\<close> (the lexer has its own).\<close>

definition parser_advance :: "Parser \<Rightarrow> Error \<Rightarrow> (Parser \<times> Error) option" where
  "parser_advance p e =
     do {
       (t, l', e') \<leftarrow> scan_token (ps_lexer p) e;
       Some (p\<lparr>ps_previous := ps_current p, ps_current := t, ps_lexer := l'\<rparr>, e')
     }"

definition check :: "Parser \<Rightarrow> TokenType \<Rightarrow> bool" where
  "check p ty = (tok_type (ps_current p) = ty)"

definition match :: "Parser \<Rightarrow> TokenType \<Rightarrow> Error \<Rightarrow> (bool \<times> Parser \<times> Error) option" where
  "match p ty e =
     (if check p ty then do { (p', e') \<leftarrow> parser_advance p e; Some (True, p', e') }
      else Some (False, p, e))"

text \<open>
  The \<open>set_error\<close> call that \<open>consume\<close>, \<open>parse\<close>, \<open>parse_variable_declaration\<close> and
  \<open>parse_literal\<close> all make, at the current token, followed by
  \<open>parser->had_error = true\<close>.
\<close>

definition error_at_current :: "Parser \<Rightarrow> string \<Rightarrow> Error \<Rightarrow> Parser \<times> Error" where
  "error_at_current p message e =
     (p\<lparr>ps_had_error := True\<rparr>,
      set_error ERROR_SYNTAX (tok_line (ps_current p)) (tok_column (ps_current p)) message
        (Some (lx_source (ps_lexer p))) (offset_in_source (tok_start (ps_current p)))
        (tok_length (ps_current p)) e)"

definition consume ::
  "Parser \<Rightarrow> TokenType \<Rightarrow> string \<Rightarrow> Error \<Rightarrow> (bool \<times> Parser \<times> Error) option" where
  "consume p ty message e =
     (if check p ty then do { (p', e') \<leftarrow> parser_advance p e; Some (True, p', e') }
      else (let (p', e') = error_at_current p message e in Some (False, p', e')))"

text \<open>
  \<open>init_parser\<close> leaves \<open>current\<close> and \<open>previous\<close> uninitialised before its first
  \<open>advance\<close>; \<open>uninitialized_token\<close> stands for that content. \<open>previous\<close> is read only
  after a successful \<open>consume\<close> has overwritten it.
\<close>

definition uninitialized_token :: Token where
  "uninitialized_token =
     \<lparr>tok_type = TOKEN_EOF, tok_start = InSource 0, tok_length = 0, tok_line = 0,
      tok_column = 0, tok_value = NoValue\<rparr>"

definition init_parser :: "Lexer \<Rightarrow> Error \<Rightarrow> (Parser \<times> Error) option" where
  "init_parser l e =
     parser_advance
       \<lparr>ps_lexer = l, ps_current = uninitialized_token, ps_previous = uninitialized_token,
        ps_had_error = False, ps_panic_mode = False\<rparr> e"

text \<open>
  The array \<open>type_map\<close> of \<open>token_to_value_type\<close>: five designated entries, every other
  entry zero, which is \<open>VALUE_NULL\<close>.
\<close>

fun token_to_value_type :: "TokenType \<Rightarrow> ValueType" where
  "token_to_value_type TOKEN_TYPE_INT = VALUE_INT"
| "token_to_value_type TOKEN_TYPE_FLOAT = VALUE_FLOAT"
| "token_to_value_type TOKEN_TYPE_BOOL = VALUE_BOOL"
| "token_to_value_type TOKEN_TYPE_STRING = VALUE_STRING"
| "token_to_value_type TOKEN_TYPE_NULL = VALUE_NULL"
| "token_to_value_type _ = VALUE_NULL"

text \<open>
  Reading a member of the union \<open>Token.value\<close>. \<open>parse_literal\<close> reads the member that
  the token's type names, which is the one \<open>number\<close> or \<open>string\<close> wrote.
\<close>

fun value_as_int :: "TokenValue \<Rightarrow> 64 word" where
  "value_as_int (as_int i) = i"
| "value_as_int _ = 0"

fun value_as_float :: "TokenValue \<Rightarrow> double" where
  "value_as_float (as_float d) = d"
| "value_as_float _ = strtod []"

fun value_as_string :: "TokenValue \<Rightarrow> string" where
  "value_as_string (as_string s) = s"
| "value_as_string _ = []"

text \<open>The common tail of the six literal cases: the node is built and the parser advances.\<close>

definition literal_node ::
  "Parser \<Rightarrow> Value \<Rightarrow> Error \<Rightarrow> (AstNode option \<times> Parser \<times> Error) option" where
  "literal_node p v e =
     do {
       (p', e') \<leftarrow> parser_advance p e;
       Some (Some (Literal (tok_line (ps_current p)) (tok_column (ps_current p)) v), p', e')
     }"

definition parse_literal :: "Parser \<Rightarrow> Error \<Rightarrow> (AstNode option \<times> Parser \<times> Error) option" where
  "parse_literal p e =
     (case tok_type (ps_current p) of
        TOKEN_INT \<Rightarrow>
          literal_node p (create_int_value (value_as_int (tok_value (ps_current p)))) e
      | TOKEN_FLOAT \<Rightarrow>
          literal_node p (create_float_value (value_as_float (tok_value (ps_current p)))) e
      | TOKEN_STRING \<Rightarrow>
          literal_node p (create_string_value (value_as_string (tok_value (ps_current p)))) e
      | TOKEN_TRUE \<Rightarrow> literal_node p (create_bool_value True) e
      | TOKEN_FALSE \<Rightarrow> literal_node p (create_bool_value False) e
      | TOKEN_NULL \<Rightarrow> literal_node p create_null_value e
      | _ \<Rightarrow>
          (let (p', e') = error_at_current p ''Expected literal value.'' e
           in Some (None, p', e')))"

definition parse_expression ::
  "Parser \<Rightarrow> Error \<Rightarrow> (AstNode option \<times> Parser \<times> Error) option" where
  "parse_expression p e = parse_literal p e"

definition type_tokens :: "TokenType list" where
  "type_tokens =
     [TOKEN_TYPE_INT, TOKEN_TYPE_FLOAT, TOKEN_TYPE_BOOL, TOKEN_TYPE_STRING, TOKEN_TYPE_NULL]"

text \<open>
  The \<open>for\<close> loop over \<open>type_tokens\<close>: the first type that \<open>match\<close> accepts, or
  \<open>None\<close> for \<open>found_type == false\<close>.
\<close>

fun match_type_tokens ::
  "TokenType list \<Rightarrow> Parser \<Rightarrow> Error \<Rightarrow> (TokenType option \<times> Parser \<times> Error) option" where
  "match_type_tokens [] p e = Some (None, p, e)"
| "match_type_tokens (ty # tys) p e =
     do {
       (m, p', e') \<leftarrow> match p ty e;
       if m then Some (Some ty, p', e') else match_type_tokens tys p' e'
     }"

definition parse_variable_declaration ::
  "Parser \<Rightarrow> Error \<Rightarrow> (AstNode option \<times> Parser \<times> Error) option" where
  "parse_variable_declaration p0 e0 =
     do {
       (ok1, p1, e1) \<leftarrow> consume p0 TOKEN_LET ''Expected 'let' keyword.'' e0;
       if \<not> ok1 then Some (None, p1, e1)
       else do {
         (ok2, p2, e2) \<leftarrow> consume p1 TOKEN_IDENTIFIER ''Expected variable name.'' e1;
         if \<not> ok2 then Some (None, p2, e2)
         else do {
           let name_token = ps_previous p2;
           (ok3, p3, e3) \<leftarrow> consume p2 TOKEN_COLON ''Expected ':' after variable name.'' e2;
           if \<not> ok3 then Some (None, p3, e3)
           else do {
             (found, p4, e4) \<leftarrow> match_type_tokens type_tokens p3 e3;
             case found of
               None \<Rightarrow>
                 (let (p5, e5) = error_at_current p4
                        ''Expected type (int, float, bool, string, or null).'' e4
                  in Some (None, p5, e5))
             | Some type_token \<Rightarrow>
                 do {
                   let vtype = token_to_value_type type_token;
                   (ok5, p5, e5) \<leftarrow> consume p4 TOKEN_EQUAL ''Expected '=' after type.'' e4;
                   if \<not> ok5 then Some (None, p5, e5)
                   else do {
                     (init, p6, e6) \<leftarrow> parse_expression p5 e5;
                     case init of
                       None \<Rightarrow> Some (None, p6, e6)
                     | Some init_node \<Rightarrow>
                         do {
                           (ok7, p7, e7) \<leftarrow>
                             consume p6 TOKEN_SEMICOLON
                               ''Expected ';' after variable declaration.'' e6;
                           if \<not> ok7 then Some (None, p7, e7)
                           else
                             Some (Some (VariableDeclaration (tok_line name_token)
                                           (tok_column name_token)
                                           (case tok_start name_token of
                                              InSource n \<Rightarrow>
                                                take (nat (tok_length name_token))
                                                  (drop n (lx_source (ps_lexer p7)))
                                            | InMessage m \<Rightarrow>
                                                take (nat (tok_length name_token)) m)
                                           vtype init_node),
                                   p7, e7)
                         }
                   }
                 }
           }
         }
       }
     }"

definition parse_declaration ::
  "Parser \<Rightarrow> Error \<Rightarrow> (AstNode option \<times> Parser \<times> Error) option" where
  "parse_declaration p e = parse_variable_declaration p e"

definition parse :: "Parser \<Rightarrow> Error \<Rightarrow> (AstNode option \<times> Parser \<times> Error) option" where
  "parse p e =
     do {
       (node, p1, e1) \<leftarrow> parse_declaration p e;
       if \<not> check p1 TOKEN_EOF \<and> \<not> ps_had_error p1
       then (let (p2, e2) = error_at_current p1 ''Expected end of file.'' e1
             in Some (node, p2, e2))
       else Some (node, p1, e1)
     }"

section \<open>Semantic analyzer (semantic.h, semantic.c)\<close>

text \<open>The symbol table is the linked list of its entries, the head first.\<close>

type_synonym SymbolEntry = "string \<times> ValueType"

record SemanticAnalyzer =
  sa_symbol_table :: "SymbolEntry list"
  sa_had_error :: bool

definition init_semantic_analyzer :: SemanticAnalyzer where
  "init_semantic_analyzer = \<lparr>sa_symbol_table = [], sa_had_error = False\<rparr>"

definition add_symbol :: "SymbolEntry list \<Rightarrow> string \<Rightarrow> ValueType \<Rightarrow> SymbolEntry list" where
  "add_symbol table name ty = (name, ty) # table"

fun find_symbol :: "SymbolEntry list \<Rightarrow> string \<Rightarrow> SymbolEntry option" where
  "find_symbol [] name = None"
| "find_symbol (entry # rest) name =
     (if fst entry = name then Some entry else find_symbol rest name)"

text \<open>The values of the enum \<open>ValueType\<close>, which index the compatibility table.\<close>

fun value_type_index :: "ValueType \<Rightarrow> nat" where
  "value_type_index VALUE_NULL = 0"
| "value_type_index VALUE_INT = 1"
| "value_type_index VALUE_FLOAT = 2"
| "value_type_index VALUE_BOOL = 3"
| "value_type_index VALUE_STRING = 4"

text \<open>
  \<open>compatibility_table[5][5]\<close>, row by row as the source writes it (its column comment
  reads NULL, INT, FLOAT, BOOL, STRING, its row comments the same).
\<close>

definition compatibility_table :: "bool list list" where
  "compatibility_table =
     [[True,  False, False, False, False],
      [False, True,  True,  False, False],
      [False, False, True,  False, False],
      [False, False, False, True,  False],
      [False, False, False, False, True ]]"

definition check_types_compatible :: "ValueType \<Rightarrow> ValueType \<Rightarrow> bool" where
  "check_types_compatible expected actual =
     (if expected = actual then True
      else if actual = VALUE_NULL then True
      else compatibility_table ! value_type_index expected ! value_type_index actual)"

fun get_node_type :: "AstNode \<Rightarrow> ValueType" where
  "get_node_type (Literal ln col v) = value_type v"
| "get_node_type (VariableDeclaration ln col name ty init) = ty"

text \<open>
  \<open>analyze_variable_declaration\<close> is called on declaration nodes only; the selectors read
  the fields of \<open>node->as.var_decl\<close>. The initializer is never \<open>NULL\<close> (see \<open>AstNode\<close>),
  so the test \<open>initializer != NULL\<close> always holds.
\<close>

definition analyze_variable_declaration ::
  "SemanticAnalyzer \<Rightarrow> AstNode \<Rightarrow> Error \<Rightarrow> bool \<times> SemanticAnalyzer \<times> Error" where
  "analyze_variable_declaration a node e =
     (if find_symbol (sa_symbol_table a) (var_name node) \<noteq> None then
        (False, a\<lparr>sa_had_error := True\<rparr>,
         set_error ERROR_NAME (node_line node) (node_column node)
           ''Variable already declared'' None 0 0 e)
      else
        (let a1 = a\<lparr>sa_symbol_table :=
                      add_symbol (sa_symbol_table a) (var_name node) (var_type node)\<rparr>;
             init = initializer node;
             init_type = get_node_type init
         in if \<not> check_types_compatible (var_type node) init_type then
              (False, a1\<lparr>sa_had_error := True\<rparr>,
               set_error ERROR_TYPE (node_line init) (node_column init)
                 (''Type mismatch: cannot assign '' @ value_type_to_string init_type @
                  '' to variable of type '' @ value_type_to_string (var_type node))
                 None 0 0 e)
            else (True, a1, e)))"

fun analyze_node ::
  "SemanticAnalyzer \<Rightarrow> AstNode option \<Rightarrow> Error \<Rightarrow> bool \<times> SemanticAnalyzer \<times> Error" where
  "analyze_node a None e = (True, a, e)"
| "analyze_node a (Some (VariableDeclaration ln col name ty init)) e =
     analyze_variable_declaration a (VariableDeclaration ln col name ty init) e"
| "analyze_node a (Some (Literal ln col v)) e = (True, a, e)"

definition analyze ::
  "SemanticAnalyzer \<Rightarrow> AstNode option \<Rightarrow> Error \<Rightarrow> bool \<times> SemanticAnalyzer \<times> Error" where
  "analyze a node e =
     (let (result, a', e') = analyze_node a node e
      in (result \<and> \<not> sa_had_error a', a', e'))"

section \<open>Interpreter (interpreter.h, interpreter.c)\<close>

text \<open>The environment is the linked list of its entries, the head first.\<close>

type_synonym EnvEntry = "string \<times> Value"

record Interpreter =
  in_env :: "EnvEntry list"
  in_had_error :: bool
  in_repl_mode :: bool

definition init_interpreter :: "bool \<Rightarrow> Interpreter" where
  "init_interpreter repl_mode = \<lparr>in_env = [], in_had_error = False, in_repl_mode = repl_mode\<rparr>"

text \<open>
  The string payloads that overwriting a value hands to \<open>free\<close>: the old payload when the
  old value is a string.
\<close>

fun released :: "Value \<Rightarrow> string list" where
  "released (StringValue s) = [s]"
| "released v = []"

text \<open>
  The loop of \<open>env_define\<close> over the entries: at the first entry with the name, the old
  payload is released and the value overwritten (the entry gets its own copy of a string
  payload). \<open>None\<close> when the loop ends without a match.
\<close>

fun env_overwrite ::
  "EnvEntry list \<Rightarrow> string \<Rightarrow> Value \<Rightarrow> (EnvEntry list \<times> string list) option" where
  "env_overwrite [] name v = None"
| "env_overwrite (entry # rest) name v =
     (if fst entry = name then Some ((fst entry, v) # rest, released (snd entry))
      else map_option (\<lambda>(rest', freed). (entry # rest', freed)) (env_overwrite rest name v))"

text \<open>
  \<open>env_define\<close> returns the environment and the payloads it released. It is \<open>void\<close> in
  the source: it has no failure path.
\<close>

definition env_define ::
  "EnvEntry list \<Rightarrow> string \<Rightarrow> Value \<Rightarrow> EnvEntry list \<times> string list" where
  "env_define env name v =
     (case env_overwrite env name v of
        Some r \<Rightarrow> r
      | None \<Rightarrow> ((name, v) # env, []))"

text \<open>Looking a name up, as the loop of \<open>env_define\<close> does: the first entry with the name.\<close>

fun env_lookup :: "EnvEntry list \<Rightarrow> string \<Rightarrow> Value option" where
  "env_lookup [] name = None"
| "env_lookup (entry # rest) name =
     (if fst entry = name then Some (snd entry) else env_lookup rest name)"

definition evaluate_literal :: "Interpreter \<Rightarrow> Value \<Rightarrow> Value \<times> Interpreter" where
  "evaluate_literal i v = (v, i)"

function evaluate_node :: "Interpreter \<Rightarrow> AstNode \<Rightarrow> Value \<times> Interpreter"
  and evaluate_variable_declaration ::
    "Interpreter \<Rightarrow> string \<Rightarrow> ValueType \<Rightarrow> AstNode \<Rightarrow> Value \<times> Interpreter" where
  "evaluate_node i (VariableDeclaration ln col name ty init) =
     evaluate_variable_declaration i name ty init"
| "evaluate_node i (Literal ln col v) = evaluate_literal i v"
| "evaluate_variable_declaration i name ty init =
     (let (v, i1) = evaluate_node i init;
          i2 = i1\<lparr>in_env := fst (env_define (in_env i1) name v)\<rparr>
      in (v, i2))"
  by pat_completeness auto
termination
  by (relation "measure (\<lambda>x. case x of Inl (i, n) \<Rightarrow> 2 * size n
                                      | Inr (i, name, ty, init) \<Rightarrow> 2 * size init + 1)")
     auto

text \<open>\<open>interpret\<close> (a reserved word here, hence the suffix).\<close>

definition interpret_ast :: "Interpreter \<Rightarrow> AstNode option \<Rightarrow> Value \<times> Interpreter" where
  "interpret_ast i node =
     (case node of
        None \<Rightarrow> (create_null_value, i)
      | Some n \<Rightarrow> evaluate_node i n)"

section \<open>Driver (main.c)\<close>

text \<open>
  What a call of \<open>run_source\<close> leaves behind: its result, the AST that \<open>parse\<close> returned,
  the value that \<open>interpret\<close> returned (\<open>None\<close> when \<open>interpret\<close> was not called), the
  interpreter after \<open>interpret\<close> and before \<open>free_interpreter\<close>, and the diagnostic slot.
\<close>

record Run =
  run_result :: bool
  run_ast :: "AstNode option"
  run_value :: "Value option"
  run_interpreter :: Interpreter
  run_error :: Error

text \<open>
  \<open>run_source\<close>; the log level only selects what is printed and is left out. \<open>None\<close> is
  the out-of-buffer read of the lexer.
\<close>

definition run_source :: "string \<Rightarrow> bool \<Rightarrow> Error \<Rightarrow> Run option" where
  "run_source src repl_mode e0 =
     do {
       let lexer = init_lexer src;
       (parser, e1) \<leftarrow> init_parser lexer e0;
       let analyzer = init_semantic_analyzer;
       let interpreter = init_interpreter repl_mode;
       (ast, parser', e2) \<leftarrow> parse parser e1;
       if ps_had_error parser' \<or> ast = None then
         Some \<lparr>run_result = False, run_ast = ast, run_value = None,
               run_interpreter = interpreter, run_error = print_error e2\<rparr>
       else
         (let (ok, analyzer', e3) = analyze analyzer ast e2
          in if \<not> ok then
               Some \<lparr>run_result = False, run_ast = ast, run_value = None,
                     run_interpreter = interpreter, run_error = print_error e3\<rparr>
             else
               (let (v, interpreter') = interpret_ast interpreter ast
                in Some \<lparr>run_result = True, run_ast = ast, run_value = Some v,
                         run_interpreter = interpreter', run_error = e3\<rparr>))
     }"

text \<open>The diagnostic slot as \<open>main\<close> leaves it before the first run.\<close>

definition empty_slot :: Error where
  "empty_slot =
     init_kasd_state
       \<lparr>err_type = ERROR_NONE, err_line = 0, err_column = 0, err_message = None,
        err_source_line = None, err_source_pos = 0, err_source_len = 0, has_error = False\<rparr>"

section \<open>Notions of the statements and proofs\<close>

text \<open>
  What every loop of the lexer keeps: the source, the start of the lexeme and the error
  flag; the pointer only moves forward and not past the terminator.
\<close>

definition moved_forward :: "Lexer \<Rightarrow> Lexer \<Rightarrow> bool" where
  "moved_forward l l' \<longleftrightarrow>
     lx_source l' = lx_source l \<and> lx_start l' = lx_start l \<and>
     lx_had_error l' = lx_had_error l \<and> lx_current l \<le> lx_current l' \<and>
     (lx_current l \<le> length (lx_source l) \<longrightarrow> lx_current l' \<le> length (lx_source l))"

text \<open>
  \<open>parser_clean src e0 p e\<close>: the parser reads \<open>src\<close>, has flagged no error, and the slot
  is still \<open>e0\<close> unless the current token is of type EOF (which an error token is).
\<close>

definition parser_clean :: "string \<Rightarrow> Error \<Rightarrow> Parser \<Rightarrow> Error \<Rightarrow> bool" where
  "parser_clean src e0 p e \<longleftrightarrow>
     lx_source (ps_lexer p) = src \<and> \<not> ps_had_error p \<and>
     (tok_type (ps_current p) \<noteq> TOKEN_EOF \<longrightarrow> e = e0)"

text \<open>
  How a caller that keeps calling \<open>scan_token\<close> ends, given \<open>n\<close> calls: with the EOF
  token at the end of the input, with the read outside the buffer, or with calls left
  to make.
\<close>

datatype ScanEnd = ReachedEOF | ReadOutsideBuffer | StillScanning

fun scan_until_eof :: "nat \<Rightarrow> Lexer \<Rightarrow> Error \<Rightarrow> ScanEnd" where
  "scan_until_eof 0 l e = StillScanning"
| "scan_until_eof (Suc n) l e =
     (case scan_token l e of
        None \<Rightarrow> ReadOutsideBuffer
      | Some (t, l', e') \<Rightarrow>
          if tok_type t = TOKEN_EOF \<and> is_at_end l' then ReachedEOF
          else scan_until_eof n l' e')"

section \<open>Evaluating the model on concrete inputs\<close>

text \<open>
  The loops unfold only on an explicit lexer record, and the weak congruences make the
  simplifier evaluate an argument before the body that uses it.
\<close>

declare skip_whitespace.simps [simp del]
declare identifier_while.simps [simp del]
declare digits_while.simps [simp del]
declare string_while.simps [simp del]

lemma bind_weak_cong: "x = y \<Longrightarrow> Option.bind x f = Option.bind y f"
  by simp

lemmas loop_unfold =
  skip_whitespace.simps [of "\<lparr>lx_source = s, lx_current = c, lx_start = st, lx_line = ln,
    lx_column = col, lx_had_error = h\<rparr>"]
  identifier_while.simps [of "\<lparr>lx_source = s, lx_current = c, lx_start = st, lx_line = ln,
    lx_column = col, lx_had_error = h\<rparr>"]
  digits_while.simps [of "\<lparr>lx_source = s, lx_current = c, lx_start = st, lx_line = ln,
    lx_column = col, lx_had_error = h\<rparr>"]
  string_while.simps [of "\<lparr>lx_source = s, lx_current = c, lx_start = st, lx_line = ln,
    lx_column = col, lx_had_error = h\<rparr>"]
  for s c st ln col h

lemmas slot_defs = set_error_def clear_error_def print_error_def init_kasd_state_def
  empty_slot_def

lemmas lexer_defs = scan_token_def init_lexer_def peek_def is_at_end_def advance_def
  peek_next_def make_token_def error_token_def char_classes_def isspace_def isalpha_def
  isdigit_def lex_identifier_def number_def string_def check_keyword_def lexeme_of_def
  keyword_table_def strtoll_def

lemmas parser_defs = parser_advance_def check_def match_def error_at_current_def consume_def
  uninitialized_token_def init_parser_def literal_node_def parse_literal_def
  parse_expression_def type_tokens_def parse_variable_declaration_def parse_declaration_def
  parse_def create_null_value_def create_int_value_def create_float_value_def
  create_bool_value_def create_string_value_def

lemmas run_defs = init_semantic_analyzer_def add_symbol_def compatibility_table_def
  check_types_compatible_def analyze_variable_declaration_def analyze_def
  init_interpreter_def env_define_def evaluate_literal_def interpret_ast_def run_source_def

lemmas eval_congs = bind_weak_cong let_weak_cong CharClass.case_cong_weak
  option.case_cong_weak prod.case_cong_weak TokenType.case_cong_weak

section \<open>The diagnostic slot\<close>

lemma set_error_pending: "has_error e \<Longrightarrow> set_error ty ln col m s pos len e = e"
  by (simp add: set_error_def)

lemma has_error_set_error: "has_error (set_error ty ln col m s pos len e)"
  by (simp add: set_error_def)

lemma slot_step_pending:
  "has_error e \<Longrightarrow> op \<noteq> ClearError \<Longrightarrow> slot_step op e = e"
  by (cases op) (simp_all add: set_error_pending print_error_def)

lemma slot_steps_pending:
  "has_error e \<Longrightarrow> \<forall>op\<in>set ops. op \<noteq> ClearError \<Longrightarrow>
     foldl (\<lambda>s op. slot_step op s) e ops = e"
  by (induction ops) (simp_all add: slot_step_pending)

text \<open>
  C3. The slot is first-error-wins. While a diagnostic is pending, a \<open>set_error\<close> call
  returns the slot as it was, and so does any sequence of operations without a
  \<open>clear_error\<close>; an operation that ends the pending state is \<open>clear_error\<close>, which
  always does; and of two \<open>set_error\<close> calls on an empty slot the slot holds the first.
\<close>

theorem diagnostic_first_error_wins:
  "(has_error e \<longrightarrow> set_error ty ln col m s pos len e = e) \<and>
   (has_error e \<and> (\<forall>op\<in>set ops. op \<noteq> ClearError) \<longrightarrow>
      foldl (\<lambda>s op. slot_step op s) e ops = e) \<and>
   (has_error e \<and> \<not> has_error (slot_step op e) \<longrightarrow> op = ClearError) \<and>
   \<not> has_error (clear_error e) \<and>
   (\<not> has_error e \<longrightarrow>
      set_error ty' ln' col' m' s' pos' len' (set_error ty ln col m s pos len e) =
        set_error ty ln col m s pos len e \<and>
      set_error ty ln col m s pos len e =
        e\<lparr>err_type := ty, err_line := ln, err_column := col, err_message := Some m,
          err_source_line := s, err_source_pos := pos, err_source_len := len,
          has_error := True\<rparr>)"
proof (intro conjI impI)
  assume "has_error e"
  then show "set_error ty ln col m s pos len e = e"
    by (rule set_error_pending)
next
  assume "has_error e \<and> (\<forall>op\<in>set ops. op \<noteq> ClearError)"
  then show "foldl (\<lambda>s op. slot_step op s) e ops = e"
    by (simp add: slot_steps_pending)
next
  assume a: "has_error e \<and> \<not> has_error (slot_step op e)"
  show "op = ClearError"
  proof (rule ccontr)
    assume "op \<noteq> ClearError"
    with a have "slot_step op e = e" by (simp add: slot_step_pending)
    with a show False by simp
  qed
next
  show "\<not> has_error (clear_error e)"
    by (simp add: clear_error_def)
next
  assume "\<not> has_error e"
  show "set_error ty' ln' col' m' s' pos' len' (set_error ty ln col m s pos len e) =
        set_error ty ln col m s pos len e"
    by (rule set_error_pending) (rule has_error_set_error)
next
  assume "\<not> has_error e"
  then show "set_error ty ln col m s pos len e =
        e\<lparr>err_type := ty, err_line := ln, err_column := col, err_message := Some m,
          err_source_line := s, err_source_pos := pos, err_source_len := len,
          has_error := True\<rparr>"
    by (simp add: set_error_def)
qed

text \<open>
  The theorem at an unterminated string followed by the parser's own complaint: the slot
  keeps the lexer's diagnostic until it is cleared.
\<close>

theorem diagnostic_first_error_wins_witness:
  "has_error (set_error ERROR_SYNTAX 1 21 ''Unterminated string.'' (Some ''src'') 16 4 empty_slot) \<and>
   set_error ERROR_SYNTAX 1 21 ''Expected literal value.'' (Some ''src'') 0 20
     (set_error ERROR_SYNTAX 1 21 ''Unterminated string.'' (Some ''src'') 16 4 empty_slot) =
     set_error ERROR_SYNTAX 1 21 ''Unterminated string.'' (Some ''src'') 16 4 empty_slot \<and>
   err_message
     (foldl (\<lambda>s op. slot_step op s)
        (set_error ERROR_SYNTAX 1 21 ''Unterminated string.'' (Some ''src'') 16 4 empty_slot)
        [SetError ERROR_TYPE 2 3 ''Type mismatch'' None 0 0, PrintError,
         SetError ERROR_NAME 1 1 ''Variable already declared'' None 0 0]) =
     Some ''Unterminated string.'' \<and>
   \<not> has_error (slot_step ClearError
     (set_error ERROR_SYNTAX 1 21 ''Unterminated string.'' (Some ''src'') 16 4 empty_slot))"
  using diagnostic_first_error_wins
    [of "set_error ERROR_SYNTAX 1 21 ''Unterminated string.'' (Some ''src'') 16 4 empty_slot"
        ERROR_SYNTAX 1 21 "''Expected literal value.''" "Some ''src''" 0 20
        "[SetError ERROR_TYPE 2 3 ''Type mismatch'' None 0 0, PrintError,
          SetError ERROR_NAME 1 1 ''Variable already declared'' None 0 0]"
        ClearError]
  by (simp add: slot_defs)

section \<open>The environment\<close>

lemma env_overwrite_None: "env_overwrite env name v = None \<longleftrightarrow> name \<notin> fst ` set env"
  by (induction env) auto

lemma env_overwrite_keys:
  "env_overwrite env name v = Some (env', freed) \<Longrightarrow> map fst env' = map fst env"
  by (induction env arbitrary: env' freed) (auto split: if_splits)

lemma env_overwrite_in_place:
  "env_overwrite env name v = Some (env', freed) \<Longrightarrow>
     \<exists>i<length env. fst (env ! i) = name \<and> (\<forall>j<i. fst (env ! j) \<noteq> name) \<and>
       env' = env[i := (name, v)] \<and> freed = released (snd (env ! i))"
proof (induction env arbitrary: env' freed)
  case Nil
  then show ?case by simp
next
  case (Cons entry rest)
  show ?case
  proof (cases "fst entry = name")
    case True
    with Cons.prems have "env' = (name, v) # rest" "freed = released (snd entry)"
      by auto
    with True show ?thesis
      by (intro exI [of _ 0]) simp
  next
    case False
    with Cons.prems obtain rest' where
      r: "env_overwrite rest name v = Some (rest', freed)" and e: "env' = entry # rest'"
      by auto
    from Cons.IH [OF r] obtain i where
      i: "i < length rest" "fst (rest ! i) = name" "\<forall>j<i. fst (rest ! j) \<noteq> name"
         "rest' = rest[i := (name, v)]" "freed = released (snd (rest ! i))"
      by blast
    have "\<forall>j<Suc i. fst ((entry # rest) ! j) \<noteq> name"
      using False i(3) by (auto simp: less_Suc_eq_0_disj)
    with i e show ?thesis
      by (intro exI [of _ "Suc i"]) simp
  qed
qed

lemma env_lookup_overwrite:
  "env_overwrite env name v = Some (env', freed) \<Longrightarrow> env_lookup env' name = Some v"
  by (induction env arbitrary: env' freed) (auto split: if_splits)

lemma env_lookup_env_define: "env_lookup (fst (env_define env name v)) name = Some v"
  by (cases "env_overwrite env name v")
     (auto simp: env_define_def env_lookup_overwrite)

lemma distinct_env_define:
  assumes "distinct (map fst env)"
  shows "distinct (map fst (fst (env_define env name v)))"
proof (cases "env_overwrite env name v")
  case None
  then have "name \<notin> fst ` set env"
    by (simp add: env_overwrite_None)
  with None assms show ?thesis
    by (simp add: env_define_def)
next
  case (Some r)
  then have "map fst (fst r) = map fst env"
    by (cases r) (simp add: env_overwrite_keys)
  with Some assms show ?thesis
    by (simp add: env_define_def)
qed

lemma distinct_env_defines:
  "distinct (map fst env) \<Longrightarrow>
     distinct (map fst (foldl (\<lambda>env (n, v). fst (env_define env n v)) env binds))"
  by (induction binds arbitrary: env) (auto simp: distinct_env_define)

text \<open>
  C8. Defining a name that the environment holds overwrites the value of its (first)
  entry in place, releasing the old string payload, and leaves every other entry as it
  was; defining a fresh name puts one entry in front. \<open>env_define\<close> has no failure
  result. The name it defines is bound to the value afterwards, names stay distinct, and
  so are the names of every environment built from the empty one.
\<close>

theorem env_define_overwrites_or_adds:
  "(name \<in> fst ` set env \<longrightarrow>
      (\<exists>i<length env. fst (env ! i) = name \<and> (\<forall>j<i. fst (env ! j) \<noteq> name) \<and>
         fst (env_define env name v) = env[i := (name, v)] \<and>
         snd (env_define env name v) = released (snd (env ! i)))) \<and>
   (name \<notin> fst ` set env \<longrightarrow> env_define env name v = ((name, v) # env, [])) \<and>
   env_lookup (fst (env_define env name v)) name = Some v \<and>
   (distinct (map fst env) \<longrightarrow> distinct (map fst (fst (env_define env name v)))) \<and>
   distinct (map fst (foldl (\<lambda>env (n, v). fst (env_define env n v)) [] binds))"
proof (intro conjI impI)
  assume "name \<in> fst ` set env"
  then obtain env' freed where o: "env_overwrite env name v = Some (env', freed)"
    using env_overwrite_None [of env name v] by (cases "env_overwrite env name v") auto
  then have "env_define env name v = (env', freed)"
    by (simp add: env_define_def)
  with env_overwrite_in_place [OF o]
  show "\<exists>i<length env. fst (env ! i) = name \<and> (\<forall>j<i. fst (env ! j) \<noteq> name) \<and>
         fst (env_define env name v) = env[i := (name, v)] \<and>
         snd (env_define env name v) = released (snd (env ! i))"
    by simp
next
  assume "name \<notin> fst ` set env"
  then have "env_overwrite env name v = None"
    by (simp add: env_overwrite_None)
  then show "env_define env name v = ((name, v) # env, [])"
    by (simp add: env_define_def)
next
  show "env_lookup (fst (env_define env name v)) name = Some v"
    by (rule env_lookup_env_define)
next
  assume "distinct (map fst env)"
  then show "distinct (map fst (fst (env_define env name v)))"
    by (rule distinct_env_define)
next
  show "distinct (map fst (foldl (\<lambda>env (n, v). fst (env_define env n v)) [] binds))"
    by (rule distinct_env_defines) simp
qed

theorem env_define_overwrites_or_adds_witness:
  "''x'' \<in> fst ` set [(''y'', IntValue 7), (''x'', StringValue ''old'')] \<and>
   distinct (map fst [(''y'', IntValue 7), (''x'', StringValue ''old'')]) \<and>
   env_define [(''y'', IntValue 7), (''x'', StringValue ''old'')] ''x'' (BoolValue True) =
     ([(''y'', IntValue 7), (''x'', BoolValue True)], [''old'']) \<and>
   ''z'' \<notin> fst ` set [(''y'', IntValue 7), (''x'', StringValue ''old'')] \<and>
   env_define [(''y'', IntValue 7), (''x'', StringValue ''old'')] ''z'' NullValue =
     ([(''z'', NullValue), (''y'', IntValue 7), (''x'', StringValue ''old'')], [])"
  using env_define_overwrites_or_adds
          [of "''x''" "[(''y'', IntValue 7), (''x'', StringValue ''old'')]" "BoolValue True" "[]"]
        env_define_overwrites_or_adds
          [of "''z''" "[(''y'', IntValue 7), (''x'', StringValue ''old'')]" NullValue "[]"]
  by (simp add: env_define_def)

section \<open>Runs of the pipeline on the inputs the specification names\<close>

text \<open>
  C4. The run of \<open>let x: int = 42;\<close> outside the interactive mode, from an empty slot:
  \<open>parse\<close> returns one declaration node for \<open>x\<close> with declared type int and the literal
  42 as initializer, \<open>analyze\<close> accepts it, \<open>interpret\<close> returns the int 42, the slot
  stays empty, and the environment binds \<open>x\<close> to the int 42.
\<close>

theorem run_let_x_int_42:
  "run_source ''let x: int = 42;'' False empty_slot =
     Some \<lparr>run_result = True,
           run_ast = Some (VariableDeclaration 1 5 ''x'' VALUE_INT
                             (Literal 1 14 (IntValue 42))),
           run_value = Some (IntValue 42),
           run_interpreter = \<lparr>in_env = [(''x'', IntValue 42)], in_had_error = False,
                              in_repl_mode = False\<rparr>,
           run_error = empty_slot\<rparr> \<and>
   has_error empty_slot = False \<and>
   fst (analyze init_semantic_analyzer
          (Some (VariableDeclaration 1 5 ''x'' VALUE_INT (Literal 1 14 (IntValue 42))))
          empty_slot) = True \<and>
   env_lookup [(''x'', IntValue 42)] ''x'' = Some (IntValue 42)"
  by (simp add: slot_defs lexer_defs parser_defs run_defs loop_unfold Let_def
           cong: eval_congs)


text \<open>
  What \<open>check_types_compatible\<close> accepts: equal types, a null initializer, and a float
  initializer for a variable declared int. The table is indexed
  \<open>[expected][actual]\<close>, and the one cross-type entry that is true stands in the row INT
  under the column FLOAT.
\<close>

lemma check_types_compatible_iff:
  "check_types_compatible expected actual \<longleftrightarrow>
     expected = actual \<or> actual = VALUE_NULL \<or>
     (expected = VALUE_INT \<and> actual = VALUE_FLOAT)"
  by (cases expected; cases actual)
     (simp_all add: check_types_compatible_def compatibility_table_def)

text \<open>
  C1. The code at \<open>let x: float = 1;\<close>, an int literal for a variable declared float:
  \<open>check_types_compatible\<close> is false, analysis ends with a Type diagnostic and
  \<open>interpret\<close> is not called. At \<open>let x: int = 1.5;\<close>, a float literal for a variable
  declared int, it is true and the run binds \<open>x\<close> to the float.
\<close>

theorem int_literal_for_float_is_rejected:
  "check_types_compatible VALUE_FLOAT VALUE_INT = False \<and>
   check_types_compatible VALUE_INT VALUE_FLOAT = True \<and>
   run_source ''let x: float = 1;'' False empty_slot =
     Some \<lparr>run_result = False,
           run_ast = Some (VariableDeclaration 1 5 ''x'' VALUE_FLOAT
                             (Literal 1 16 (IntValue 1))),
           run_value = None,
           run_interpreter = init_interpreter False,
           run_error =
             \<lparr>err_type = ERROR_TYPE, err_line = 1, err_column = 16,
              err_message =
                Some ''Type mismatch: cannot assign int to variable of type float'',
              err_source_line = None, err_source_pos = 0, err_source_len = 0,
              has_error = True\<rparr>\<rparr> \<and>
   run_source ''let x: int = 1.5;'' False empty_slot =
     Some \<lparr>run_result = True,
           run_ast = Some (VariableDeclaration 1 5 ''x'' VALUE_INT
                             (Literal 1 14 (FloatValue (strtod ''1.5;'')))),
           run_value = Some (FloatValue (strtod ''1.5;'')),
           run_interpreter = \<lparr>in_env = [(''x'', FloatValue (strtod ''1.5;''))],
                              in_had_error = False, in_repl_mode = False\<rparr>,
           run_error = empty_slot\<rparr>"
  by (simp add: slot_defs lexer_defs parser_defs run_defs loop_unfold Let_def
           cong: eval_congs)

text \<open>
  Consuming a newline in \<open>skip_whitespace\<close> sets the column to 1 and then advances, which
  counts the newline itself: the column is 2 at the first character of the next line.
\<close>

lemma skip_whitespace_newline:
  "char_classes (peek l) = CHAR_NEWLINE \<Longrightarrow>
     skip_whitespace l =
       skip_whitespace
         (l\<lparr>lx_line := lx_line l + 1, lx_column := 2, lx_current := lx_current l + 1\<rparr>)"
  by (subst skip_whitespace.simps) (simp add: advance_def)

text \<open>
  C2. The code at a newline followed by \<open>let\<close>: the line counter goes from 1 to 2, and
  the token that starts at the first character of line 2 is reported at column 2. The
  same token at the first character of line 1 is reported at column 1.
\<close>

theorem token_after_newline_is_at_column_2:
  "scan_token (init_lexer (CHR 0x0A # ''let'')) empty_slot =
     Some (\<lparr>tok_type = TOKEN_LET, tok_start = InSource 1, tok_length = 3, tok_line = 2,
            tok_column = 2, tok_value = NoValue\<rparr>,
           \<lparr>lx_source = CHR 0x0A # ''let'', lx_current = 4, lx_start = 1, lx_line = 2,
            lx_column = 5, lx_had_error = False\<rparr>,
           empty_slot) \<and>
   scan_token (init_lexer ''let'') empty_slot =
     Some (\<lparr>tok_type = TOKEN_LET, tok_start = InSource 0, tok_length = 3, tok_line = 1,
            tok_column = 1, tok_value = NoValue\<rparr>,
           \<lparr>lx_source = ''let'', lx_current = 3, lx_start = 0, lx_line = 1,
            lx_column = 4, lx_had_error = False\<rparr>,
           empty_slot)"
  by (simp add: slot_defs lexer_defs loop_unfold Let_def cong: eval_congs)

text \<open>
  A newline right after an opening quote is consumed by the extra \<open>advance\<close> of
  \<open>string\<close>, outside the loop that counts lines: the line counter stays at 1.
\<close>

lemma newline_after_quote_not_counted:
  "scan_token (init_lexer [CHR 0x22, CHR 0x0A, CHR ''a'', CHR 0x22]) empty_slot =
     Some (\<lparr>tok_type = TOKEN_STRING, tok_start = InSource 0, tok_length = 3, tok_line = 1,
            tok_column = 1, tok_value = as_string ''a''\<rparr>,
           \<lparr>lx_source = [CHR 0x22, CHR 0x0A, CHR ''a'', CHR 0x22], lx_current = 4,
            lx_start = 0, lx_line = 1, lx_column = 5, lx_had_error = False\<rparr>,
           empty_slot)"
  by (simp add: slot_defs lexer_defs loop_unfold Let_def cong: eval_congs)

text \<open>
  C5. The run of \<open>let y: bool = null;\<close>: analysis accepts it and the environment binds
  \<open>y\<close> to the Null value. A null initializer is compatible with every declared type,
  and evaluating a declaration with a literal initializer binds the name to the literal's
  value whatever the declared type \<open>ty\<close> is: the declared type is not consulted.
\<close>

theorem null_initializer_keeps_null_tag:
  "run_source ''let y: bool = null;'' False empty_slot =
     Some \<lparr>run_result = True,
           run_ast = Some (VariableDeclaration 1 5 ''y'' VALUE_BOOL
                             (Literal 1 15 NullValue)),
           run_value = Some NullValue,
           run_interpreter = \<lparr>in_env = [(''y'', NullValue)], in_had_error = False,
                              in_repl_mode = False\<rparr>,
           run_error = empty_slot\<rparr> \<and>
   check_types_compatible ty VALUE_NULL \<and>
   evaluate_node i (VariableDeclaration ln col name ty (Literal ln' col' v)) =
     (v, i\<lparr>in_env := fst (env_define (in_env i) name v)\<rparr>) \<and>
   env_lookup
     (in_env (snd (evaluate_node i (VariableDeclaration ln col name ty (Literal ln' col' v)))))
     name = Some v"
proof (intro conjI)
  show "run_source ''let y: bool = null;'' False empty_slot =
     Some \<lparr>run_result = True,
           run_ast = Some (VariableDeclaration 1 5 ''y'' VALUE_BOOL
                             (Literal 1 15 NullValue)),
           run_value = Some NullValue,
           run_interpreter = \<lparr>in_env = [(''y'', NullValue)], in_had_error = False,
                              in_repl_mode = False\<rparr>,
           run_error = empty_slot\<rparr>"
    by (simp add: slot_defs lexer_defs parser_defs run_defs loop_unfold Let_def
             cong: eval_congs)
  show "check_types_compatible ty VALUE_NULL"
    by (simp add: check_types_compatible_def)
  show e: "evaluate_node i (VariableDeclaration ln col name ty (Literal ln' col' v)) =
     (v, i\<lparr>in_env := fst (env_define (in_env i) name v)\<rparr>)"
    by (simp add: evaluate_literal_def)
  show "env_lookup
     (in_env (snd (evaluate_node i (VariableDeclaration ln col name ty (Literal ln' col' v)))))
     name = Some v"
    by (simp only: e snd_conv) (simp add: env_lookup_env_define)
qed

section \<open>Unterminated strings\<close>

lemma string_while_fields:
  "lx_start (string_while l) = lx_start l \<and> lx_source (string_while l) = lx_source l \<and>
   lx_had_error (string_while l) = lx_had_error l"
proof (induction l rule: string_while.induct)
  case (1 l)
  show ?case
  proof (cases "peek l \<noteq> CHR 0x22 \<and> \<not> is_at_end l")
    case True
    with "1" show ?thesis
      by (subst (1 2 3) string_while.simps) (simp add: advance_def)
  next
    case False
    then show ?thesis
      by (subst (1 2 3) string_while.simps) auto
  qed
qed

text \<open>
  When \<open>string\<close> ends at the end of the input it returns an error token, and on an empty
  slot the diagnostic is a Syntax error "Unterminated string." whose span starts at
  \<open>lexer->start\<close>, the opening quote, and runs to the point of failure.
\<close>

lemma unterminated_string_diagnostic:
  assumes "string l e = Some (t, l', e')" and "tok_type t = TOKEN_EOF" and "\<not> has_error e"
  shows "is_at_end l' \<and> lx_had_error l' \<and> has_error e' \<and>
         err_type e' = ERROR_SYNTAX \<and> err_message e' = Some ''Unterminated string.'' \<and>
         err_source_line e' = Some (lx_source l) \<and>
         err_source_pos e' = int (lx_start l) \<and>
         err_source_len e' = int (lx_current l') - int (lx_start l) \<and>
         err_line e' = lx_line l' \<and> err_column e' = lx_column l'"
proof -
  define l1 where "l1 = snd (advance l)"
  define l2 where "l2 = string_while l1"
  have f: "lx_start l2 = lx_start l" "lx_source l2 = lx_source l"
    using string_while_fields [of l1] by (simp_all add: l2_def l1_def advance_def)
  from assms(1) have inb: "\<not> length (lx_source l1) < lx_current l1"
    by (auto simp: string_def l1_def Let_def split: if_splits)
  show ?thesis
  proof (cases "is_at_end l2")
    case True
    with assms(1) inb have "(t, l', e') = error_token l2 ''Unterminated string.'' e"
      by (simp add: string_def l1_def [symmetric] l2_def [symmetric] Let_def)
    then have r: "t = fst (error_token l2 ''Unterminated string.'' e)"
      "l' = l2\<lparr>lx_had_error := True\<rparr>"
      "e' = snd (snd (error_token l2 ''Unterminated string.'' e))"
      by (simp_all add: error_token_def Let_def)
    have "is_at_end l' = is_at_end l2"
      by (simp add: r(2) is_at_end_def peek_def)
    with True have "is_at_end l'"
      by simp
    with assms(3) f r show ?thesis
      by (simp add: error_token_def set_error_def Let_def)
  next
    case False
    with assms(1) inb have "tok_type t = TOKEN_STRING"
      by (auto simp: string_def l1_def [symmetric] l2_def [symmetric] Let_def make_token_def)
    with assms(2) show ?thesis by simp
  qed
qed

text \<open>
  C6. The code at a complete declaration followed by an unterminated string, from an
  empty slot: the lexer records the Syntax diagnostic "Unterminated string." with the
  span from the opening quote (offset 15, 4 bytes), the error token ends the parse as the
  end of the file would, and the run goes on: \<open>interpret\<close> is called, \<open>x\<close> is bound and
  \<open>run_source\<close> returns true with the diagnostic pending. At an opening quote that is the
  last byte of the source, \<open>string\<close> steps past the terminator.
\<close>

theorem unterminated_string_after_declaration_is_interpreted:
  "run_source (''let x: int = 1;'' @ [CHR 0x22] @ ''abc'') False empty_slot =
     Some \<lparr>run_result = True,
           run_ast = Some (VariableDeclaration 1 5 ''x'' VALUE_INT
                             (Literal 1 14 (IntValue 1))),
           run_value = Some (IntValue 1),
           run_interpreter = \<lparr>in_env = [(''x'', IntValue 1)], in_had_error = False,
                              in_repl_mode = False\<rparr>,
           run_error =
             \<lparr>err_type = ERROR_SYNTAX, err_line = 1, err_column = 20,
              err_message = Some ''Unterminated string.'',
              err_source_line = Some (''let x: int = 1;'' @ [CHR 0x22] @ ''abc''),
              err_source_pos = 15, err_source_len = 4, has_error = True\<rparr>\<rparr> \<and>
   run_source (''let s: string = '' @ [CHR 0x22]) False empty_slot = None"
  by (simp add: slot_defs lexer_defs parser_defs run_defs loop_unfold Let_def
           cong: eval_congs)

text \<open>
  The example of the specification, where the string is the initializer: the parser
  stops at the error token, \<open>interpret\<close> is not called, and the slot holds the lexer's
  diagnostic, not the parser's "Expected literal value.".
\<close>

lemma unterminated_initializer_run:
  "run_source (''let s: string = '' @ [CHR 0x22] @ ''abc'') False empty_slot =
     Some \<lparr>run_result = False, run_ast = None, run_value = None,
           run_interpreter = init_interpreter False,
           run_error =
             \<lparr>err_type = ERROR_SYNTAX, err_line = 1, err_column = 21,
              err_message = Some ''Unterminated string.'',
              err_source_line = Some (''let s: string = '' @ [CHR 0x22] @ ''abc''),
              err_source_pos = 16, err_source_len = 4, has_error = True\<rparr>\<rparr>"
  by (simp add: slot_defs lexer_defs parser_defs run_defs loop_unfold Let_def
           cong: eval_congs)

section \<open>The lexer stays inside the buffer and moves forward\<close>

lemma peek_in_source: "peek l \<noteq> CHR 0x00 \<Longrightarrow> lx_current l < length (lx_source l)"
  by (simp add: peek_def split: if_splits)

lemma char_classes_nul: "char_classes (CHR 0x00) = CHAR_EOF"
  by (simp add: char_classes_def)

lemma class_in_source:
  "char_classes (peek l) \<noteq> CHAR_EOF \<Longrightarrow> lx_current l < length (lx_source l)"
  using char_classes_nul peek_in_source by metis

lemma moved_forward_refl: "moved_forward l l"
  by (simp add: moved_forward_def)

lemma moved_forward_trans:
  "moved_forward l l' \<Longrightarrow> moved_forward l' l'' \<Longrightarrow> moved_forward l l''"
  by (auto simp: moved_forward_def)

lemma moved_forward_advance:
  "lx_current l < length (lx_source l) \<Longrightarrow> moved_forward l (snd (advance l))"
  by (simp add: moved_forward_def advance_def)

lemma moved_forward_line:
  "moved_forward (l\<lparr>lx_line := n, lx_column := c\<rparr>) l' \<Longrightarrow> moved_forward l l'"
  by (simp add: moved_forward_def)

lemma peek_line: "peek (l\<lparr>lx_line := n, lx_column := c\<rparr>) = peek l"
  by (simp add: peek_def)

lemma skip_whitespace_forward: "moved_forward l (skip_whitespace l)"
proof (induction l rule: skip_whitespace.induct)
  case (1 l)
  show ?case
  proof (cases "char_classes (peek l)")
    case CHAR_WHITESPACE
    then have "moved_forward l (snd (advance l))"
      by (simp add: class_in_source moved_forward_advance)
    moreover have "moved_forward (snd (advance l)) (skip_whitespace (snd (advance l)))"
      using CHAR_WHITESPACE by (rule "1.IH"(1))
    ultimately show ?thesis
      using CHAR_WHITESPACE
      by (subst skip_whitespace.simps) (auto intro: moved_forward_trans)
  next
    case CHAR_NEWLINE
    let ?l = "l\<lparr>lx_line := lx_line l + 1, lx_column := 1\<rparr>"
    have "lx_current ?l < length (lx_source ?l)"
      using CHAR_NEWLINE class_in_source [of l] by simp
    then have "moved_forward ?l (snd (advance ?l))"
      by (rule moved_forward_advance)
    moreover have "moved_forward (snd (advance ?l)) (skip_whitespace (snd (advance ?l)))"
      using CHAR_NEWLINE by (rule "1.IH"(2))
    ultimately have "moved_forward l (skip_whitespace (snd (advance ?l)))"
      by (blast intro: moved_forward_trans moved_forward_line)
    then show ?thesis
      using CHAR_NEWLINE by (subst skip_whitespace.simps) simp
  qed (subst skip_whitespace.simps, simp add: moved_forward_refl)+
qed

lemma skip_whitespace_stops:
  "char_classes (peek (skip_whitespace l)) \<noteq> CHAR_WHITESPACE \<and>
   char_classes (peek (skip_whitespace l)) \<noteq> CHAR_NEWLINE"
proof (induction l rule: skip_whitespace.induct)
  case (1 l)
  show ?case
  proof (cases "char_classes (peek l)")
    case CHAR_WHITESPACE
    with "1.IH"(1) show ?thesis
      by (subst (1 2) skip_whitespace.simps) simp
  next
    case CHAR_NEWLINE
    with "1.IH"(2) show ?thesis
      by (subst (1 2) skip_whitespace.simps) simp
  qed (subst (1 2) skip_whitespace.simps, simp)+
qed

lemma identifier_while_forward: "moved_forward l (identifier_while l)"
proof (induction l rule: identifier_while.induct)
  case (1 l)
  show ?case
  proof (cases "char_classes (peek l) = CHAR_ALPHA \<or> char_classes (peek l) = CHAR_DIGIT")
    case True
    then have "moved_forward l (snd (advance l))"
      by (auto simp: class_in_source moved_forward_advance)
    moreover have "moved_forward (snd (advance l)) (identifier_while (snd (advance l)))"
      using True by (rule "1.IH")
    ultimately show ?thesis
      using True by (subst identifier_while.simps) (auto intro: moved_forward_trans)
  next
    case False
    then show ?thesis
      by (subst identifier_while.simps) (auto simp: moved_forward_refl)
  qed
qed

lemma digits_while_forward: "moved_forward l (digits_while l)"
proof (induction l rule: digits_while.induct)
  case (1 l)
  show ?case
  proof (cases "char_classes (peek l) = CHAR_DIGIT")
    case True
    then have "moved_forward l (snd (advance l))"
      by (simp add: class_in_source moved_forward_advance)
    moreover have "moved_forward (snd (advance l)) (digits_while (snd (advance l)))"
      using True by (rule "1.IH")
    ultimately show ?thesis
      using True by (subst digits_while.simps) (auto intro: moved_forward_trans)
  next
    case False
    then show ?thesis
      by (subst digits_while.simps) (simp add: moved_forward_refl)
  qed
qed

lemma string_while_forward: "moved_forward l (string_while l)"
proof (induction l rule: string_while.induct)
  case (1 l)
  show ?case
  proof (cases "peek l \<noteq> CHR 0x22 \<and> \<not> is_at_end l")
    case True
    let ?l = "if peek l = CHR 0x0A then l\<lparr>lx_line := lx_line l + 1, lx_column := 1\<rparr> else l"
    have "lx_current ?l < length (lx_source ?l)"
      using True peek_in_source [of l] by (simp add: is_at_end_def)
    then have "moved_forward ?l (snd (advance ?l))"
      by (rule moved_forward_advance)
    moreover have "moved_forward (snd (advance ?l)) (string_while (snd (advance ?l)))"
      using True by (intro "1.IH") simp_all
    ultimately have "moved_forward ?l (string_while (snd (advance ?l)))"
      by (rule moved_forward_trans)
    then have "moved_forward l (string_while (snd (advance ?l)))"
      by (auto intro: moved_forward_line split: if_splits)
    then show ?thesis
      using True by (subst string_while.simps) simp
  next
    case False
    then show ?thesis
      by (subst string_while.simps) (auto simp: moved_forward_refl)
  qed
qed

lemma string_while_stops: "peek (string_while l) = CHR 0x22 \<or> is_at_end (string_while l)"
proof (induction l rule: string_while.induct)
  case (1 l)
  show ?case
  proof (cases "peek l \<noteq> CHR 0x22 \<and> \<not> is_at_end l")
    case True
    with "1.IH" show ?thesis
      by (subst (1 2) string_while.simps) simp
  next
    case False
    then show ?thesis
      by (subst (1 2) string_while.simps) auto
  qed
qed

lemma lex_identifier_forward: "lex_identifier l = (t, l') \<Longrightarrow> moved_forward l l'"
  by (auto simp: lex_identifier_def Let_def identifier_while_forward)

lemma number_forward:
  assumes "number l = (t, l')"
  shows "moved_forward l l'"
proof -
  define l1 where "l1 = digits_while l"
  have a: "moved_forward l l1"
    by (simp add: l1_def digits_while_forward)
  show ?thesis
  proof (cases "peek l1 = CHR ''.'' \<and> char_classes (peek_next l1) = CHAR_DIGIT")
    case True
    then have "peek l1 \<noteq> CHR 0x00"
      by simp
    then have "moved_forward l1 (snd (advance l1))"
      by (intro moved_forward_advance peek_in_source)
    then have "moved_forward l1 (digits_while (snd (advance l1)))"
      using digits_while_forward moved_forward_trans by blast
    moreover from assms True have "l' = digits_while (snd (advance l1))"
      by (simp add: number_def l1_def [symmetric] Let_def)
    ultimately show ?thesis
      using a moved_forward_trans by blast
  next
    case False
    with assms have "l' = l1"
      by (auto simp: number_def l1_def [symmetric] Let_def)
    with a show ?thesis by simp
  qed
qed

lemma string_forward:
  assumes "string l e = Some (t, l', e')"
  shows "lx_source l' = lx_source l \<and> lx_start l' = lx_start l \<and>
         lx_current l < lx_current l' \<and> lx_current l' \<le> length (lx_source l)"
proof -
  define l1 where "l1 = snd (advance l)"
  define l2 where "l2 = string_while l1"
  have l1: "lx_source l1 = lx_source l" "lx_start l1 = lx_start l"
    "lx_current l1 = lx_current l + 1"
    by (simp_all add: l1_def advance_def)
  from assms have inb: "lx_current l1 \<le> length (lx_source l1)"
    by (auto simp: string_def l1_def Let_def split: if_splits)
  have f: "moved_forward l1 l2"
    by (simp add: l2_def string_while_forward)
  show ?thesis
  proof (cases "is_at_end l2")
    case True
    with assms inb have "l' = l2\<lparr>lx_had_error := True\<rparr>"
      by (simp add: string_def l1_def [symmetric] l2_def [symmetric] Let_def error_token_def)
    with f l1 inb show ?thesis
      by (simp add: moved_forward_def)
  next
    case False
    with assms inb have l': "l' = snd (advance l2)"
      by (auto simp: string_def l1_def [symmetric] l2_def [symmetric] Let_def)
    from False have "lx_current l2 < length (lx_source l2)"
      by (simp add: is_at_end_def peek_in_source)
    with f l1 l' show ?thesis
      by (simp add: moved_forward_def advance_def)
  qed
qed

lemma string_slot:
  "string l e = Some (t, l', e') \<Longrightarrow> tok_type t \<noteq> TOKEN_EOF \<Longrightarrow> e' = e"
  by (auto simp: string_def Let_def error_token_def split: if_splits)

lemma skip_whitespace_at_end: "is_at_end l \<Longrightarrow> skip_whitespace l = l"
  by (subst skip_whitespace.simps) (simp add: is_at_end_def char_classes_nul)

lemma is_at_end_start: "is_at_end (l\<lparr>lx_start := n\<rparr>) = is_at_end l"
  by (simp add: is_at_end_def peek_def)

text \<open>At the end of the input, after the whitespace, \<open>scan_token\<close> returns the EOF token.\<close>

lemma scan_token_eof:
  "is_at_end (skip_whitespace l) \<Longrightarrow>
     scan_token l e =
       Some (make_token ((skip_whitespace l)\<lparr>lx_start := lx_current (skip_whitespace l)\<rparr>)
               TOKEN_EOF,
             (skip_whitespace l)\<lparr>lx_start := lx_current (skip_whitespace l)\<rparr>, e)"
  by (simp add: scan_token_def Let_def is_at_end_start)

text \<open>
  Past the end-of-input test, \<open>scan_token\<close> advances over one byte \<open>c\<close> of the source and
  dispatches on it.
\<close>

lemma scan_token_dispatch:
  assumes "\<not> is_at_end (skip_whitespace l)"
  defines "l2 \<equiv> (skip_whitespace l)\<lparr>lx_start := lx_current (skip_whitespace l)\<rparr>"
  defines "c \<equiv> peek l2"
  defines "l3 \<equiv> snd (advance l2)"
  shows "scan_token l e =
     (case char_classes c of
        CHAR_ALPHA \<Rightarrow> (let (t, l4) = lex_identifier l3 in Some (t, l4, e))
      | CHAR_DIGIT \<Rightarrow> (let (t, l4) = number l3 in Some (t, l4, e))
      | CHAR_QUOTE \<Rightarrow> string l3 e
      | _ \<Rightarrow>
          (if c = CHR '':'' then Some (make_token l3 TOKEN_COLON, l3, e)
           else if c = CHR ''='' then Some (make_token l3 TOKEN_EQUAL, l3, e)
           else if c = CHR '';'' then Some (make_token l3 TOKEN_SEMICOLON, l3, e)
           else Some (error_token l3
                        (''Unexpected character: '' @ [CHR 0x27, c, CHR 0x27]) e)))"
  using assms(1)
  by (simp add: scan_token_def Let_def is_at_end_start l2_def c_def l3_def advance_def
           cong: CharClass.case_cong)

lemma scan_token_after_advance:
  assumes "\<not> is_at_end (skip_whitespace l)"
  defines "l2 \<equiv> (skip_whitespace l)\<lparr>lx_start := lx_current (skip_whitespace l)\<rparr>"
  defines "l3 \<equiv> snd (advance l2)"
  shows "lx_source l3 = lx_source l" and "lx_current l < lx_current l3"
    and "lx_current l \<le> length (lx_source l) \<Longrightarrow> lx_current l3 \<le> length (lx_source l)"
    and "lx_had_error l3 = lx_had_error l" and "lx_start l3 = lx_current (skip_whitespace l)"
proof -
  have f: "moved_forward l (skip_whitespace l)"
    by (rule skip_whitespace_forward)
  have "lx_current (skip_whitespace l) < length (lx_source (skip_whitespace l))"
    using assms(1) by (simp add: is_at_end_def peek_in_source)
  with f show "lx_source l3 = lx_source l" and "lx_current l < lx_current l3"
    and "lx_current l \<le> length (lx_source l) \<Longrightarrow> lx_current l3 \<le> length (lx_source l)"
    and "lx_had_error l3 = lx_had_error l" and "lx_start l3 = lx_current (skip_whitespace l)"
    by (auto simp: moved_forward_def l3_def l2_def advance_def)
qed

text \<open>
  A call of \<open>scan_token\<close> that returns keeps the source and the pointer inside the
  buffer, and it consumes at least one byte or returns the EOF token at the end of the
  input, with the slot untouched.
\<close>

lemma scan_token_progress:
  assumes "scan_token l e = Some (t, l', e')"
  shows "lx_source l' = lx_source l \<and>
         (lx_current l \<le> length (lx_source l) \<longrightarrow> lx_current l' \<le> length (lx_source l)) \<and>
         (lx_current l < lx_current l' \<or>
          (tok_type t = TOKEN_EOF \<and> is_at_end l' \<and> e' = e \<and>
           lx_current l' = lx_current l))"
proof (cases "is_at_end (skip_whitespace l)")
  case True
  have f: "moved_forward l (skip_whitespace l)"
    by (rule skip_whitespace_forward)
  from True assms have
    "l' = (skip_whitespace l)\<lparr>lx_start := lx_current (skip_whitespace l)\<rparr>"
    "t = make_token l' TOKEN_EOF" "e' = e"
    by (auto simp: scan_token_eof)
  with f True show ?thesis
    by (auto simp: moved_forward_def make_token_def is_at_end_start)
next
  case False
  define l3 where
    "l3 = snd (advance ((skip_whitespace l)\<lparr>lx_start := lx_current (skip_whitespace l)\<rparr>))"
  define c where "c = peek ((skip_whitespace l)\<lparr>lx_start := lx_current (skip_whitespace l)\<rparr>)"
  note a = scan_token_after_advance [OF False, folded l3_def]
  note d = scan_token_dispatch [OF False, of e, folded l3_def c_def]
  have fwd: "moved_forward l3 l' \<or> l' = l3\<lparr>lx_had_error := True\<rparr> \<or>
      (lx_source l' = lx_source l3 \<and> lx_current l3 < lx_current l' \<and>
       lx_current l' \<le> length (lx_source l3))"
    using assms unfolding d
    by (auto simp: error_token_def Let_def moved_forward_refl
             dest: lex_identifier_forward number_forward string_forward
             split: CharClass.splits prod.splits if_splits)
  with a show ?thesis
    by (auto simp: moved_forward_def)
qed

lemma scan_token_slot:
  assumes "scan_token l e = Some (t, l', e')" and "tok_type t \<noteq> TOKEN_EOF"
  shows "e' = e"
proof (cases "is_at_end (skip_whitespace l)")
  case True
  with assms show ?thesis
    by (simp add: scan_token_eof)
next
  case False
  from assms show ?thesis
    unfolding scan_token_dispatch [OF False]
    by (auto simp: error_token_def Let_def dest: string_slot
             split: CharClass.splits prod.splits if_splits)
qed

lemma scan_token_error_pending:
  assumes "scan_token l e = Some (t, l', e')" and "tok_start t = InMessage m"
  shows "has_error e'"
proof (cases "is_at_end (skip_whitespace l)")
  case True
  with assms show ?thesis
    by (auto simp: scan_token_eof make_token_def)
next
  case False
  from assms show ?thesis
    unfolding scan_token_dispatch [OF False]
    by (auto simp: error_token_def Let_def lex_identifier_def number_def string_def
                   make_token_def has_error_set_error
             split: CharClass.splits prod.splits if_splits)
qed

section \<open>The parser on a clean run\<close>

lemma scan_token_source: "scan_token l e = Some (t, l', e') \<Longrightarrow> lx_source l' = lx_source l"
  by (simp add: scan_token_progress)

lemma parser_advance_clean:
  assumes "parser_advance p e0 = Some (p', e')"
    and "lx_source (ps_lexer p) = src" and "\<not> ps_had_error p"
  shows "parser_clean src e0 p' e'"
  using assms
  by (auto simp: parser_advance_def parser_clean_def bind_eq_Some_conv
           dest: scan_token_source scan_token_slot)

lemma consume_clean:
  assumes "consume p ty m e = Some (True, p', e')" and "parser_clean src e0 p e"
    and "ty \<noteq> TOKEN_EOF"
  shows "parser_clean src e0 p' e'"
proof -
  from assms(1) have c: "tok_type (ps_current p) = ty" and
    a: "parser_advance p e = Some (p', e')"
    by (auto simp: consume_def check_def error_at_current_def bind_eq_Some_conv
             split: if_splits)
  from c assms(2,3) have "e = e0" "lx_source (ps_lexer p) = src" "\<not> ps_had_error p"
    by (simp_all add: parser_clean_def)
  with a show ?thesis
    by (simp add: parser_advance_clean)
qed

lemma consume_failed: "consume p ty m e = Some (False, p', e') \<Longrightarrow> ps_had_error p'"
  by (auto simp: consume_def error_at_current_def bind_eq_Some_conv split: if_splits)

lemma match_clean:
  assumes "match p ty e = Some (True, p', e')" and "parser_clean src e0 p e"
    and "ty \<noteq> TOKEN_EOF"
  shows "parser_clean src e0 p' e'"
proof -
  from assms(1) have c: "tok_type (ps_current p) = ty" and
    a: "parser_advance p e = Some (p', e')"
    by (auto simp: match_def check_def bind_eq_Some_conv split: if_splits)
  from c assms(2,3) have "e = e0" "lx_source (ps_lexer p) = src" "\<not> ps_had_error p"
    by (simp_all add: parser_clean_def)
  with a show ?thesis
    by (simp add: parser_advance_clean)
qed

lemma match_unmatched: "match p ty e = Some (False, p', e') \<Longrightarrow> p' = p \<and> e' = e"
  by (auto simp: match_def bind_eq_Some_conv split: if_splits)

lemma match_type_tokens_clean:
  assumes "match_type_tokens tys p e = Some (Some ty, p', e')"
    and "parser_clean src e0 p e" and "TOKEN_EOF \<notin> set tys"
  shows "parser_clean src e0 p' e'"
  using assms
proof (induction tys arbitrary: p e)
  case Nil
  then show ?case by simp
next
  case (Cons a tys)
  from Cons.prems(1) obtain m p1 e1 where
    m: "match p a e = Some (m, p1, e1)" and
    r: "(if m then Some (Some a, p1, e1) else match_type_tokens tys p1 e1) =
          Some (Some ty, p', e')"
    by (auto simp: bind_eq_Some_conv)
  show ?case
  proof (cases m)
    case True
    with m r Cons.prems show ?thesis
      by (auto dest: match_clean)
  next
    case False
    with m have "p1 = p" "e1 = e"
      by (auto dest: match_unmatched)
    with False r Cons.prems show ?thesis
      by (auto intro: Cons.IH)
  qed
qed

lemma literal_node_clean:
  assumes "literal_node p v e = Some (n, p', e')" and "parser_clean src e0 p e"
    and "tok_type (ps_current p) \<noteq> TOKEN_EOF"
  shows "parser_clean src e0 p' e'"
proof -
  from assms(1) have a: "parser_advance p e = Some (p', e')"
    by (auto simp: literal_node_def bind_eq_Some_conv)
  from assms(2,3) have "e = e0" "lx_source (ps_lexer p) = src" "\<not> ps_had_error p"
    by (simp_all add: parser_clean_def)
  with a show ?thesis
    by (simp add: parser_advance_clean)
qed

lemma parse_literal_clean:
  assumes "parse_literal p e = Some (Some n, p', e')" and "parser_clean src e0 p e"
  shows "parser_clean src e0 p' e'"
  using assms
  by (auto simp: parse_literal_def error_at_current_def
           split: TokenType.splits dest: literal_node_clean)

text \<open>
  A declaration that \<open>parse_variable_declaration\<close> returns was parsed without a
  diagnostic: every token it consumed was a real token.
\<close>

lemma parse_variable_declaration_clean:
  assumes "parse_variable_declaration p e = Some (Some node, p', e')"
    and "parser_clean src e0 p e"
  shows "parser_clean src e0 p' e'"
proof -
  from assms(1) obtain p1 e1 where
    s1: "consume p TOKEN_LET ''Expected 'let' keyword.'' e = Some (True, p1, e1)"
    by (auto simp: parse_variable_declaration_def bind_eq_Some_conv split: if_splits)
  from assms(1) s1 obtain p2 e2 where
    s2: "consume p1 TOKEN_IDENTIFIER ''Expected variable name.'' e1 = Some (True, p2, e2)"
    by (auto simp: parse_variable_declaration_def bind_eq_Some_conv split: if_splits)
  from assms(1) s1 s2 obtain p3 e3 where
    s3: "consume p2 TOKEN_COLON ''Expected ':' after variable name.'' e2 = Some (True, p3, e3)"
    by (auto simp: parse_variable_declaration_def bind_eq_Some_conv Let_def
             split: if_splits)
  from assms(1) s1 s2 s3 obtain ty p4 e4 where
    s4: "match_type_tokens type_tokens p3 e3 = Some (Some ty, p4, e4)"
    by (auto simp: parse_variable_declaration_def bind_eq_Some_conv Let_def
                   error_at_current_def
             split: if_splits option.splits)
  from assms(1) s1 s2 s3 s4 obtain p5 e5 where
    s5: "consume p4 TOKEN_EQUAL ''Expected '=' after type.'' e4 = Some (True, p5, e5)"
    by (auto simp: parse_variable_declaration_def bind_eq_Some_conv Let_def
             split: if_splits)
  from assms(1) s1 s2 s3 s4 s5 obtain init p6 e6 where
    s6: "parse_expression p5 e5 = Some (Some init, p6, e6)"
    by (auto simp: parse_variable_declaration_def bind_eq_Some_conv Let_def
             split: if_splits option.splits)
  from assms(1) s1 s2 s3 s4 s5 s6 have
    s7: "consume p6 TOKEN_SEMICOLON ''Expected ';' after variable declaration.'' e6 =
           Some (True, p', e')"
    by (auto simp: parse_variable_declaration_def bind_eq_Some_conv Let_def
             split: if_splits)
  have "parser_clean src e0 p1 e1"
    using s1 assms(2) by (rule consume_clean) simp
  then have "parser_clean src e0 p2 e2"
    using s2 by (auto intro: consume_clean)
  then have "parser_clean src e0 p3 e3"
    using s3 by (auto intro: consume_clean)
  moreover have "TOKEN_EOF \<notin> set type_tokens"
    by (simp add: type_tokens_def)
  ultimately have "parser_clean src e0 p4 e4"
    using s4 by (blast intro: match_type_tokens_clean)
  then have "parser_clean src e0 p5 e5"
    using s5 by (auto intro: consume_clean)
  then have "parser_clean src e0 p6 e6"
    using s6 by (auto simp: parse_expression_def intro: parse_literal_clean)
  then show ?thesis
    using s7 by (auto intro: consume_clean)
qed

lemma init_parser_clean:
  "init_parser (init_lexer src) e0 = Some (p, e) \<Longrightarrow> parser_clean src e0 p e"
  by (auto simp: init_parser_def init_lexer_def intro: parser_advance_clean)

section \<open>The end-of-file check\<close>

text \<open>
  What the end-of-file check does when it is reached with a token: when
  \<open>parse_declaration\<close> has returned its node and the current token is not of type EOF,
  \<open>parse\<close> records the Syntax diagnostic "Expected end of file." at that token on a
  slot that was empty before the run, flags the error, and \<open>run_source\<close> returns false
  without calling \<open>interpret\<close>.
\<close>

lemma eof_check_after_parsed_declaration:
  assumes "\<not> has_error e0"
    and "init_parser (init_lexer src) e0 = Some (p0, e1)"
    and "parse_declaration p0 e1 = Some (Some node, p1, e2)"
    and "tok_type (ps_current p1) \<noteq> TOKEN_EOF"
  shows "\<exists>p e. parse p0 e1 = Some (Some node, p, e) \<and> ps_had_error p \<and> has_error e \<and>
           err_type e = ERROR_SYNTAX \<and> err_message e = Some ''Expected end of file.'' \<and>
           err_line e = tok_line (ps_current p1) \<and>
           err_column e = tok_column (ps_current p1) \<and>
           err_source_line e = Some src \<and>
           err_source_pos e = offset_in_source (tok_start (ps_current p1)) \<and>
           err_source_len e = tok_length (ps_current p1) \<and>
           run_source src repl e0 =
             Some \<lparr>run_result = False, run_ast = Some node, run_value = None,
                   run_interpreter = init_interpreter repl, run_error = e\<rparr>"
proof -
  have "parser_clean src e0 p0 e1"
    using assms(2) by (rule init_parser_clean)
  with assms(3) have "parser_clean src e0 p1 e2"
    by (auto simp: parse_declaration_def intro: parse_variable_declaration_clean)
  with assms(4) have c: "lx_source (ps_lexer p1) = src" "\<not> ps_had_error p1" "e2 = e0"
    by (simp_all add: parser_clean_def)
  define e where
    "e = set_error ERROR_SYNTAX (tok_line (ps_current p1)) (tok_column (ps_current p1))
           ''Expected end of file.'' (Some src)
           (offset_in_source (tok_start (ps_current p1))) (tok_length (ps_current p1)) e0"
  have p: "parse p0 e1 = Some (Some node, p1\<lparr>ps_had_error := True\<rparr>, e)"
    using assms(3,4) c by (simp add: parse_def check_def error_at_current_def e_def)
  have r: "run_source src repl e0 =
             Some \<lparr>run_result = False, run_ast = Some node, run_value = None,
                   run_interpreter = init_interpreter repl, run_error = e\<rparr>"
    using assms(2) p by (simp add: run_source_def print_error_def)
  have "has_error e \<and> err_type e = ERROR_SYNTAX \<and>
        err_message e = Some ''Expected end of file.'' \<and>
        err_line e = tok_line (ps_current p1) \<and>
        err_column e = tok_column (ps_current p1) \<and>
        err_source_line e = Some src \<and>
        err_source_pos e = offset_in_source (tok_start (ps_current p1)) \<and>
        err_source_len e = tok_length (ps_current p1)"
    using assms(1) by (simp add: e_def set_error_def)
  with p r show ?thesis
    by (intro exI [of _ "p1\<lparr>ps_had_error := True\<rparr>"] exI [of _ e]) simp
qed

text \<open>The example \<open>let x: int = 1;;\<close>, where the trailing token is the second \<open>;\<close>.\<close>

lemma eof_check_at_second_semicolon:
  "\<not> has_error empty_slot \<and>
   run_source ''let x: int = 1;;'' False empty_slot =
     Some \<lparr>run_result = False,
           run_ast = Some (VariableDeclaration 1 5 ''x'' VALUE_INT
                             (Literal 1 14 (IntValue 1))),
           run_value = None,
           run_interpreter = init_interpreter False,
           run_error =
             \<lparr>err_type = ERROR_SYNTAX, err_line = 1, err_column = 16,
              err_message = Some ''Expected end of file.'',
              err_source_line = Some ''let x: int = 1;;'', err_source_pos = 15,
              err_source_len = 1, has_error = True\<rparr>\<rparr>"
proof -
  let ?p0 = "\<lparr>ps_lexer = \<lparr>lx_source = ''let x: int = 1;;'', lx_current = 3, lx_start = 0,
                 lx_line = 1, lx_column = 4, lx_had_error = False\<rparr>,
               ps_current = \<lparr>tok_type = TOKEN_LET, tok_start = InSource 0, tok_length = 3,
                 tok_line = 1, tok_column = 1, tok_value = NoValue\<rparr>,
               ps_previous = uninitialized_token,
               ps_had_error = False, ps_panic_mode = False\<rparr>"
  let ?p1 = "\<lparr>ps_lexer = \<lparr>lx_source = ''let x: int = 1;;'', lx_current = 16,
                 lx_start = 15, lx_line = 1, lx_column = 17, lx_had_error = False\<rparr>,
               ps_current = \<lparr>tok_type = TOKEN_SEMICOLON, tok_start = InSource 15,
                 tok_length = 1, tok_line = 1, tok_column = 16, tok_value = NoValue\<rparr>,
               ps_previous = \<lparr>tok_type = TOKEN_SEMICOLON, tok_start = InSource 14,
                 tok_length = 1, tok_line = 1, tok_column = 15, tok_value = NoValue\<rparr>,
               ps_had_error = False, ps_panic_mode = False\<rparr>"
  let ?node = "VariableDeclaration 1 5 ''x'' VALUE_INT (Literal 1 14 (IntValue 1))"
  have h1: "\<not> has_error empty_slot"
    by (simp add: slot_defs)
  have h2: "init_parser (init_lexer ''let x: int = 1;;'') empty_slot = Some (?p0, empty_slot)"
    by (simp add: slot_defs lexer_defs parser_defs loop_unfold Let_def cong: eval_congs)
  have h3: "parse_declaration ?p0 empty_slot = Some (Some ?node, ?p1, empty_slot)"
    by (simp add: slot_defs lexer_defs parser_defs loop_unfold Let_def cong: eval_congs)
  have h4: "tok_type (ps_current ?p1) \<noteq> TOKEN_EOF"
    by simp
  from eof_check_after_parsed_declaration [OF h1 h2 h3 h4, of False] obtain e where
    e: "has_error e" "err_type e = ERROR_SYNTAX"
       "err_message e = Some ''Expected end of file.''"
       "err_line e = 1" "err_column e = 16" "err_source_line e = Some ''let x: int = 1;;''"
       "err_source_pos e = 15" "err_source_len e = 1"
    and r: "run_source ''let x: int = 1;;'' False empty_slot =
             Some \<lparr>run_result = False, run_ast = Some ?node, run_value = None,
                   run_interpreter = init_interpreter False, run_error = e\<rparr>"
    by auto
  from e have "e = \<lparr>err_type = ERROR_SYNTAX, err_line = 1, err_column = 16,
              err_message = Some ''Expected end of file.'',
              err_source_line = Some ''let x: int = 1;;'', err_source_pos = 15,
              err_source_len = 1, has_error = True\<rparr>"
    by (cases e) simp
  with r h1 show ?thesis
    by simp
qed

text \<open>
  No keyword of the lexer has the type \<open>TOKEN_TYPE_NULL\<close>: the text \<open>null\<close> is always
  the literal \<open>TOKEN_NULL\<close>, so the fifth entry of \<open>type_tokens\<close> never matches.
\<close>

lemma check_keyword_never_type_null: "check_keyword_for keyword_table lexeme \<noteq> TOKEN_TYPE_NULL"
  by (simp add: keyword_table_def)

lemma scan_token_never_type_null:
  assumes "scan_token l e = Some (t, l', e')"
  shows "tok_type t \<noteq> TOKEN_TYPE_NULL"
proof (cases "is_at_end (skip_whitespace l)")
  case True
  with assms show ?thesis
    by (auto simp: scan_token_eof make_token_def)
next
  case False
  from assms show ?thesis
    unfolding scan_token_dispatch [OF False]
    by (auto simp: error_token_def Let_def lex_identifier_def number_def string_def
                   make_token_def check_keyword_def check_keyword_never_type_null
             split: CharClass.splits prod.splits if_splits)
qed

text \<open>
  C7. The code at three sources that consist of a declaration of the grammar and a
  trailing token, from an empty slot. At \<open>let x: null = null;;\<close> the declared type
  \<open>null\<close> is lexed as the literal, and the run ends with "Expected type (int, float,
  bool, string, or null)."; at \<open>let s: string = "";;\<close> the lexer of strings steps over
  the closing quote, and the run ends with "Unterminated string.": in both the
  declaration does not parse and the end-of-file check records nothing. At
  \<open>let x: int = 1; @\<close> the declaration parses, the error token for \<open>@\<close> has type EOF,
  the end-of-file check passes, and \<open>interpret\<close> is called: \<open>x\<close> is bound and
  \<open>run_source\<close> returns true.
\<close>

theorem trailing_token_without_eof_diagnostic:
  "run_source ''let x: null = null;;'' False empty_slot =
     Some \<lparr>run_result = False, run_ast = None, run_value = None,
           run_interpreter = init_interpreter False,
           run_error =
             \<lparr>err_type = ERROR_SYNTAX, err_line = 1, err_column = 8,
              err_message = Some ''Expected type (int, float, bool, string, or null).'',
              err_source_line = Some ''let x: null = null;;'', err_source_pos = 7,
              err_source_len = 4, has_error = True\<rparr>\<rparr> \<and>
   run_source (''let s: string = '' @ [CHR 0x22, CHR 0x22] @ '';;'') False empty_slot =
     Some \<lparr>run_result = False, run_ast = None, run_value = None,
           run_interpreter = init_interpreter False,
           run_error =
             \<lparr>err_type = ERROR_SYNTAX, err_line = 1, err_column = 21,
              err_message = Some ''Unterminated string.'',
              err_source_line = Some (''let s: string = '' @ [CHR 0x22, CHR 0x22] @ '';;''),
              err_source_pos = 16, err_source_len = 4, has_error = True\<rparr>\<rparr> \<and>
   run_source ''let x: int = 1; @'' False empty_slot =
     Some \<lparr>run_result = True,
           run_ast = Some (VariableDeclaration 1 5 ''x'' VALUE_INT
                             (Literal 1 14 (IntValue 1))),
           run_value = Some (IntValue 1),
           run_interpreter = \<lparr>in_env = [(''x'', IntValue 1)], in_had_error = False,
                              in_repl_mode = False\<rparr>,
           run_error =
             \<lparr>err_type = ERROR_SYNTAX, err_line = 1, err_column = 18,
              err_message = Some (''Unexpected character: '' @ [CHR 0x27, CHR ''@'', CHR 0x27]),
              err_source_line = Some ''let x: int = 1; @'', err_source_pos = 16,
              err_source_len = 1, has_error = True\<rparr>\<rparr>"
  by (simp add: slot_defs lexer_defs parser_defs run_defs loop_unfold Let_def
           cong: eval_congs)

section \<open>A source without a token\<close>

lemma isspace_class:
  "isspace c \<Longrightarrow> char_classes c = CHAR_WHITESPACE \<or> char_classes c = CHAR_NEWLINE"
  by (auto simp: char_classes_def isspace_def isalpha_def isdigit_def Let_def)

lemma blank_source_skipped:
  assumes "list_all isspace src"
  shows "is_at_end (skip_whitespace (init_lexer src))"
proof (rule ccontr)
  let ?l = "skip_whitespace (init_lexer src)"
  assume "\<not> is_at_end ?l"
  then have "lx_current ?l < length (lx_source ?l)"
    by (simp add: is_at_end_def peek_in_source)
  moreover have "lx_source ?l = src"
    using skip_whitespace_forward [of "init_lexer src"]
    by (simp add: moved_forward_def init_lexer_def)
  ultimately have "peek ?l \<in> set src"
    by (simp add: peek_def)
  with assms have "isspace (peek ?l)"
    by (simp add: list_all_iff)
  with skip_whitespace_stops [of "init_lexer src"] show False
    by (auto dest: isspace_class)
qed

text \<open>
  C10. For a source of whitespace and newlines only (or no bytes at all), on an empty
  slot: the first token is EOF, the first \<open>consume\<close> of \<open>parse_variable_declaration\<close>
  fails, \<open>parse\<close> returns no AST with the Syntax diagnostic "Expected 'let' keyword.", and
  \<open>run_source\<close> returns false without calling \<open>interpret\<close>.
\<close>

theorem blank_source_fails_at_let:
  assumes "list_all isspace src" and "\<not> has_error e0"
  shows "\<exists>p0 p e. init_parser (init_lexer src) e0 = Some (p0, e0) \<and>
           tok_type (ps_current p0) = TOKEN_EOF \<and>
           consume p0 TOKEN_LET ''Expected 'let' keyword.'' e0 = Some (False, p, e) \<and>
           parse p0 e0 = Some (None, p, e) \<and> ps_had_error p \<and> has_error e \<and>
           err_type e = ERROR_SYNTAX \<and> err_message e = Some ''Expected 'let' keyword.'' \<and>
           run_source src repl e0 =
             Some \<lparr>run_result = False, run_ast = None, run_value = None,
                   run_interpreter = init_interpreter repl, run_error = e\<rparr>"
proof -
  define l where
    "l = (skip_whitespace (init_lexer src))
           \<lparr>lx_start := lx_current (skip_whitespace (init_lexer src))\<rparr>"
  define p0 where
    "p0 = \<lparr>ps_lexer = l, ps_current = make_token l TOKEN_EOF,
           ps_previous = uninitialized_token, ps_had_error = False, ps_panic_mode = False\<rparr>"
  define e where
    "e = set_error ERROR_SYNTAX (tok_line (ps_current p0)) (tok_column (ps_current p0))
           ''Expected 'let' keyword.'' (Some (lx_source (ps_lexer p0)))
           (offset_in_source (tok_start (ps_current p0))) (tok_length (ps_current p0)) e0"
  have "scan_token (init_lexer src) e0 = Some (make_token l TOKEN_EOF, l, e0)"
    using blank_source_skipped [OF assms(1)] by (simp add: scan_token_eof l_def)
  then have i: "init_parser (init_lexer src) e0 = Some (p0, e0)"
    by (simp add: init_parser_def parser_advance_def p0_def)
  have t: "tok_type (ps_current p0) = TOKEN_EOF"
    by (simp add: p0_def make_token_def)
  then have c: "consume p0 TOKEN_LET ''Expected 'let' keyword.'' e0 =
      Some (False, p0\<lparr>ps_had_error := True\<rparr>, e)"
    by (simp add: consume_def check_def error_at_current_def e_def)
  then have "parse_declaration p0 e0 = Some (None, p0\<lparr>ps_had_error := True\<rparr>, e)"
    by (simp add: parse_declaration_def parse_variable_declaration_def)
  then have p: "parse p0 e0 = Some (None, p0\<lparr>ps_had_error := True\<rparr>, e)"
    using t by (simp add: parse_def check_def)
  have r: "run_source src repl e0 =
             Some \<lparr>run_result = False, run_ast = None, run_value = None,
                   run_interpreter = init_interpreter repl, run_error = e\<rparr>"
    using i p by (simp add: run_source_def print_error_def)
  have "has_error e \<and> err_type e = ERROR_SYNTAX \<and>
        err_message e = Some ''Expected 'let' keyword.''"
    using assms(2) by (simp add: e_def set_error_def)
  with i t c p r show ?thesis
    by (intro exI [of _ p0] exI [of _ "p0\<lparr>ps_had_error := True\<rparr>"] exI [of _ e]) simp
qed

text \<open>The theorem at two blanks and a newline, and at the empty source.\<close>

theorem blank_source_fails_at_let_witness:
  "list_all isspace (''  '' @ [CHR 0x0A]) \<and> list_all isspace [] \<and>
   \<not> has_error empty_slot \<and>
   (\<exists>e. run_source (''  '' @ [CHR 0x0A]) False empty_slot =
           Some \<lparr>run_result = False, run_ast = None, run_value = None,
                 run_interpreter = init_interpreter False, run_error = e\<rparr> \<and>
         err_type e = ERROR_SYNTAX \<and> err_message e = Some ''Expected 'let' keyword.'') \<and>
   (\<exists>e. run_source [] False empty_slot =
           Some \<lparr>run_result = False, run_ast = None, run_value = None,
                 run_interpreter = init_interpreter False, run_error = e\<rparr> \<and>
         err_type e = ERROR_SYNTAX \<and> err_message e = Some ''Expected 'let' keyword.'')"
proof -
  have h1: "list_all isspace (''  '' @ [CHR 0x0A])" and h2: "list_all isspace []"
    by (simp_all add: isspace_def)
  have h3: "\<not> has_error empty_slot"
    by (simp add: slot_defs)
  from blank_source_fails_at_let [OF h1 h3, of False]
       blank_source_fails_at_let [OF h2 h3, of False]
       h1 h2 h3
  show ?thesis
    by blast
qed

section \<open>Progress and termination of the lexer\<close>

lemma char_classes_quote: "char_classes c = CHAR_QUOTE \<longleftrightarrow> c = CHR 0x22"
proof
  assume "char_classes c = CHAR_QUOTE"
  then show "c = CHR 0x22"
    by (simp add: char_classes_def Let_def split: if_splits)
next
  assume "c = CHR 0x22"
  then show "char_classes c = CHAR_QUOTE"
    by (simp add: char_classes_def Let_def)
qed

lemma string_None_iff: "string l e = None \<longleftrightarrow> length (lx_source l) < lx_current l + 1"
  by (auto simp: string_def Let_def advance_def error_token_def)

text \<open>
  \<open>scan_token\<close> returns no token exactly when the next lexeme starts with a quote that
  is the last byte of the source.
\<close>

lemma scan_token_None_iff:
  "scan_token l e = None \<longleftrightarrow>
     peek (skip_whitespace l) = CHR 0x22 \<and>
     length (lx_source l) < lx_current (skip_whitespace l) + 2"
proof (cases "is_at_end (skip_whitespace l)")
  case True
  then show ?thesis
    by (auto simp: scan_token_eof is_at_end_def)
next
  case False
  define l2 where "l2 = (skip_whitespace l)\<lparr>lx_start := lx_current (skip_whitespace l)\<rparr>"
  define c where "c = peek l2"
  define l3 where "l3 = snd (advance l2)"
  have s: "lx_source (skip_whitespace l) = lx_source l"
    using skip_whitespace_forward [of l] by (simp add: moved_forward_def)
  have c: "c = peek (skip_whitespace l)"
    by (simp add: c_def l2_def peek_def)
  have l3: "lx_source l3 = lx_source l" "lx_current l3 = lx_current (skip_whitespace l) + 1"
    by (simp_all add: l3_def l2_def advance_def s)
  note d = scan_token_dispatch [OF False, of e, folded l2_def, folded c_def l3_def]
  show ?thesis
  proof (cases "char_classes c = CHAR_QUOTE")
    case True
    then have "scan_token l e = string l3 e"
      by (simp add: d)
    with True show ?thesis
      by (simp add: string_None_iff l3 c [symmetric] char_classes_quote)
  next
    case False
    then have "scan_token l e \<noteq> None"
      unfolding d
      by (cases "char_classes c")
         (simp_all add: error_token_def Let_def split: prod.splits)
    with False show ?thesis
      by (simp add: c [symmetric] char_classes_quote)
  qed
qed

lemma scan_until_eof_ends:
  "lx_current l \<le> length (lx_source l) \<Longrightarrow> length (lx_source l) - lx_current l < n \<Longrightarrow>
     scan_until_eof n l e \<noteq> StillScanning"
proof (induction n arbitrary: l e)
  case 0
  then show ?case by simp
next
  case (Suc n)
  show ?case
  proof (cases "scan_token l e")
    case None
    then show ?thesis by simp
  next
    case (Some r)
    obtain t l' e' where r: "r = (t, l', e')"
      by (cases r) auto
    note p = scan_token_progress [OF Some [unfolded r]]
    show ?thesis
    proof (cases "tok_type t = TOKEN_EOF \<and> is_at_end l'")
      case True
      with Some r show ?thesis by simp
    next
      case False
      with p have m: "lx_current l < lx_current l'" "lx_source l' = lx_source l"
        by auto
      from p Suc.prems(1) have b: "lx_current l' \<le> length (lx_source l')"
        by simp
      from m b Suc.prems have "length (lx_source l') - lx_current l' < n"
        by simp
      with b have "scan_until_eof n l' e' \<noteq> StillScanning"
        by (rule Suc.IH)
      with Some r False show ?thesis by simp
    qed
  qed
qed

lemma scan_token_at_end:
  assumes "is_at_end l"
  shows "scan_token l e =
           Some (make_token (l\<lparr>lx_start := lx_current l\<rparr>) TOKEN_EOF,
                 l\<lparr>lx_start := lx_current l\<rparr>, e)"
  using assms by (simp add: scan_token_eof skip_whitespace_at_end)

text \<open>
  A lexer at the end of the input with a lexeme behind it: \<open>scan_token\<close> returns the
  EOF token and a lexer that differs from the one it was given (in \<open>start\<close>).
\<close>

theorem scan_token_at_end_moves_start:
  "scan_token (init_lexer ''a'') empty_slot =
     Some (\<lparr>tok_type = TOKEN_IDENTIFIER, tok_start = InSource 0, tok_length = 1,
            tok_line = 1, tok_column = 1, tok_value = NoValue\<rparr>,
           \<lparr>lx_source = ''a'', lx_current = 1, lx_start = 0, lx_line = 1, lx_column = 2,
            lx_had_error = False\<rparr>,
           empty_slot) \<and>
   is_at_end \<lparr>lx_source = ''a'', lx_current = 1, lx_start = 0, lx_line = 1, lx_column = 2,
              lx_had_error = False\<rparr> \<and>
   scan_token \<lparr>lx_source = ''a'', lx_current = 1, lx_start = 0, lx_line = 1, lx_column = 2,
               lx_had_error = False\<rparr> empty_slot =
     Some (\<lparr>tok_type = TOKEN_EOF, tok_start = InSource 1, tok_length = 0,
            tok_line = 1, tok_column = 2, tok_value = NoValue\<rparr>,
           \<lparr>lx_source = ''a'', lx_current = 1, lx_start = 1, lx_line = 1, lx_column = 2,
            lx_had_error = False\<rparr>,
           empty_slot) \<and>
   \<lparr>lx_source = ''a'', lx_current = 1, lx_start = 1, lx_line = 1, lx_column = 2,
    lx_had_error = False\<rparr> \<noteq>
   \<lparr>lx_source = ''a'', lx_current = 1, lx_start = 0, lx_line = 1, lx_column = 2,
    lx_had_error = False\<rparr>"
  by (simp add: slot_defs lexer_defs loop_unfold Let_def cong: eval_congs)

text \<open>
  C9, as the code has it. A call of \<open>scan_token\<close> returns a token unless the next lexeme
  starts with a quote that is the last byte of the source. A call that returns, from a
  pointer inside the buffer, keeps the pointer inside the buffer, and either consumes at
  least one byte or returns the EOF token at the end of the input; so a caller reaches
  the end of its calls within \<open>length - current + 1\<close> of them. At the end of the
  input a call returns the EOF token and the slot as it was, and the lexer with only
  \<open>start\<close> moved up to \<open>current\<close>; called again on that lexer, it returns the same token
  and the same lexer.
\<close>

theorem scan_token_progress_and_eof:
  "(\<not> (peek (skip_whitespace l) = CHR 0x22 \<and>
        length (lx_source l) < lx_current (skip_whitespace l) + 2) \<longrightarrow>
      scan_token l e \<noteq> None) \<and>
   (lx_current l \<le> length (lx_source l) \<and> scan_token l e = Some (t, l', e') \<longrightarrow>
      lx_source l' = lx_source l \<and> lx_current l' \<le> length (lx_source l') \<and>
      (lx_current l < lx_current l' \<or> (tok_type t = TOKEN_EOF \<and> is_at_end l'))) \<and>
   (lx_current l \<le> length (lx_source l) \<longrightarrow>
      scan_until_eof (Suc (length (lx_source l) - lx_current l)) l e \<noteq> StillScanning) \<and>
   (is_at_end l \<longrightarrow>
      tok_type (make_token (l\<lparr>lx_start := lx_current l\<rparr>) TOKEN_EOF) = TOKEN_EOF \<and>
      scan_token l e =
        Some (make_token (l\<lparr>lx_start := lx_current l\<rparr>) TOKEN_EOF,
              l\<lparr>lx_start := lx_current l\<rparr>, e) \<and>
      scan_token (l\<lparr>lx_start := lx_current l\<rparr>) e =
        Some (make_token (l\<lparr>lx_start := lx_current l\<rparr>) TOKEN_EOF,
              l\<lparr>lx_start := lx_current l\<rparr>, e))"
proof (intro conjI impI)
  assume "\<not> (peek (skip_whitespace l) = CHR 0x22 \<and>
        length (lx_source l) < lx_current (skip_whitespace l) + 2)"
  then show "scan_token l e \<noteq> None"
    by (simp only: scan_token_None_iff not_False_eq_True)
next
  assume a: "lx_current l \<le> length (lx_source l) \<and> scan_token l e = Some (t, l', e')"
  then have s: "scan_token l e = Some (t, l', e')" by simp
  note p = scan_token_progress [OF s]
  from p show "lx_source l' = lx_source l" by simp
  from p a show "lx_current l' \<le> length (lx_source l')" by simp
  from p show "lx_current l < lx_current l' \<or> (tok_type t = TOKEN_EOF \<and> is_at_end l')"
    by auto
next
  assume "lx_current l \<le> length (lx_source l)"
  then show "scan_until_eof (Suc (length (lx_source l) - lx_current l)) l e \<noteq> StillScanning"
    by (rule scan_until_eof_ends) simp
next
  show "tok_type (make_token (l\<lparr>lx_start := lx_current l\<rparr>) TOKEN_EOF) = TOKEN_EOF"
    by (simp add: make_token_def)
next
  assume "is_at_end l"
  then show "scan_token l e =
        Some (make_token (l\<lparr>lx_start := lx_current l\<rparr>) TOKEN_EOF,
              l\<lparr>lx_start := lx_current l\<rparr>, e)"
    by (rule scan_token_at_end)
next
  assume "is_at_end l"
  then have "is_at_end (l\<lparr>lx_start := lx_current l\<rparr>)"
    by (simp add: is_at_end_start)
  from scan_token_at_end [OF this, of e]
  show "scan_token (l\<lparr>lx_start := lx_current l\<rparr>) e =
        Some (make_token (l\<lparr>lx_start := lx_current l\<rparr>) TOKEN_EOF,
              l\<lparr>lx_start := lx_current l\<rparr>, e)"
    by simp
qed

text \<open>The theorem at the source \<open>a\<close>: before the identifier, and after it.\<close>

theorem scan_token_progress_and_eof_witness:
  "lx_current (init_lexer ''a'') \<le> length (lx_source (init_lexer ''a'')) \<and>
   scan_token (init_lexer ''a'') empty_slot \<noteq> None \<and>
   scan_until_eof 2 (init_lexer ''a'') empty_slot \<noteq> StillScanning \<and>
   is_at_end \<lparr>lx_source = ''a'', lx_current = 1, lx_start = 0, lx_line = 1, lx_column = 2,
              lx_had_error = False\<rparr> \<and>
   scan_token \<lparr>lx_source = ''a'', lx_current = 1, lx_start = 0, lx_line = 1, lx_column = 2,
               lx_had_error = False\<rparr> empty_slot =
     Some (\<lparr>tok_type = TOKEN_EOF, tok_start = InSource 1, tok_length = 0,
            tok_line = 1, tok_column = 2, tok_value = NoValue\<rparr>,
           \<lparr>lx_source = ''a'', lx_current = 1, lx_start = 1, lx_line = 1, lx_column = 2,
            lx_had_error = False\<rparr>,
           empty_slot) \<and>
   scan_token \<lparr>lx_source = ''a'', lx_current = 1, lx_start = 1, lx_line = 1, lx_column = 2,
               lx_had_error = False\<rparr> empty_slot =
     Some (\<lparr>tok_type = TOKEN_EOF, tok_start = InSource 1, tok_length = 0,
            tok_line = 1, tok_column = 2, tok_value = NoValue\<rparr>,
           \<lparr>lx_source = ''a'', lx_current = 1, lx_start = 1, lx_line = 1, lx_column = 2,
            lx_had_error = False\<rparr>,
           empty_slot)"
proof -
  have q: "\<not> (peek (skip_whitespace (init_lexer ''a'')) = CHR 0x22 \<and>
             length (lx_source (init_lexer ''a'')) <
               lx_current (skip_whitespace (init_lexer ''a'')) + 2)"
    by (simp add: lexer_defs loop_unfold Let_def cong: eval_congs)
  have b: "lx_current (init_lexer ''a'') \<le> length (lx_source (init_lexer ''a''))"
    by (simp add: init_lexer_def)
  have n: "Suc (length (lx_source (init_lexer ''a'')) - lx_current (init_lexer ''a'')) = 2"
    by (simp add: init_lexer_def)
  have a: "is_at_end \<lparr>lx_source = ''a'', lx_current = 1, lx_start = 0, lx_line = 1,
                      lx_column = 2, lx_had_error = False\<rparr>"
    by (simp add: is_at_end_def peek_def)
  from scan_token_progress_and_eof [of "init_lexer ''a''" empty_slot] q b n
  have 1: "scan_token (init_lexer ''a'') empty_slot \<noteq> None"
    and 2: "scan_until_eof 2 (init_lexer ''a'') empty_slot \<noteq> StillScanning"
    by simp_all
  from scan_token_progress_and_eof
         [of "\<lparr>lx_source = ''a'', lx_current = 1, lx_start = 0, lx_line = 1,
               lx_column = 2, lx_had_error = False\<rparr>" empty_slot] a
  have 3: "scan_token \<lparr>lx_source = ''a'', lx_current = 1, lx_start = 0, lx_line = 1,
              lx_column = 2, lx_had_error = False\<rparr> empty_slot =
     Some (\<lparr>tok_type = TOKEN_EOF, tok_start = InSource 1, tok_length = 0,
            tok_line = 1, tok_column = 2, tok_value = NoValue\<rparr>,
           \<lparr>lx_source = ''a'', lx_current = 1, lx_start = 1, lx_line = 1, lx_column = 2,
            lx_had_error = False\<rparr>,
           empty_slot)"
    and 4: "scan_token \<lparr>lx_source = ''a'', lx_current = 1, lx_start = 1, lx_line = 1,
              lx_column = 2, lx_had_error = False\<rparr> empty_slot =
     Some (\<lparr>tok_type = TOKEN_EOF, tok_start = InSource 1, tok_length = 0,
            tok_line = 1, tok_column = 2, tok_value = NoValue\<rparr>,
           \<lparr>lx_source = ''a'', lx_current = 1, lx_start = 1, lx_line = 1, lx_column = 2,
            lx_had_error = False\<rparr>,
           empty_slot)"
    by (simp_all add: make_token_def)
  from b 1 2 a 3 4 show ?thesis
    by simp
qed

end
